theory Spec2Isabelle
  imports Complex_Main "HOL-Library.Multiset"
begin

section \<open>Data model: the relational store\<close>

text \<open>
  The store is the SQLite schema that \<open>getDatabase\<close> creates (the initialisation script
  creates the same one): the relations \<open>tables\<close>, \<open>menu_items\<close>, \<open>staff\<close>, \<open>orders\<close> and
  \<open>order_items\<close>. A relation is the list of its rows in rowid order. The \<open>CHECK\<close>
  constraints on the two status columns make them closed enumerations. Quantities and
  customer counts are integers; a \<open>CURRENT_TIMESTAMP\<close> is a natural number handed to every
  handler as \<open>now\<close>. Of \<open>menu_items\<close> the columns category and image, and of \<open>staff\<close> every
  column but the identifier, play no part in the order logic and are left out.

  Money (\<open>DECIMAL(10, 2)\<close> in the store, a JavaScript number in the handlers) is a value of
  the type parameter \<open>'p\<close>. The handlers multiply and add these numbers with the machine's
  floating-point operations, of which nothing is assumed here: \<open>*\<close>, \<open>+\<close>, \<open>0\<close> and \<open>\<le>\<close> on
  \<open>'p\<close> are the operations of the syntactic classes, which carry no law, and \<open>num q\<close>, a
  parameter of the two create handlers, is the number that the integer \<open>q\<close> is. The store
  keeps and returns such a number as it is, except a NaN, which it cannot hold in a column
  declared \<open>NOT NULL\<close>.
\<close>

datatype table_status = Free | Occupied | Serving | Billing

datatype order_status = Pending | Preparing | Ready | Served | Paid

record table_row =
  t_id :: nat
  t_number :: nat
  t_status :: table_status
  customer_count :: "int option"
  t_created_at :: nat
  t_updated_at :: nat

record 'p menu_item_row =
  m_id :: nat
  m_name :: string
  price :: 'p
  is_available :: bool
  m_updated_at :: nat

record 'p order_row =
  o_id :: nat
  table_id :: nat
  total_amount :: 'p
  o_status :: order_status
  staff_id :: "nat option"
  o_created_at :: nat
  o_updated_at :: nat

record 'p order_item_row =
  oi_id :: nat
  order_id :: nat
  menu_item_id :: nat
  quantity :: int
  unit_price :: 'p
  subtotal :: 'p
  oi_created_at :: nat

text \<open>
  \<open>seq_tables\<close>, \<open>seq_orders\<close> and \<open>seq_order_items\<close> are the \<open>sqlite_sequence\<close> entries
  that \<open>AUTOINCREMENT\<close> keeps: the largest rowid ever handed out in the relation.
\<close>

record 'p db =
  tables :: "table_row list"
  menu_items :: "'p menu_item_row list"
  staff :: "nat list"
  orders :: "'p order_row list"
  order_items :: "'p order_item_row list"
  seq_tables :: nat
  seq_orders :: nat
  seq_order_items :: nat

text \<open>
  An error answer keeps its HTTP status as the constructor (400 \<open>InvalidInput\<close>,
  404 \<open>NotFound\<close>, 409 \<open>Conflict\<close>, 500 \<open>Internal\<close>) and its \<open>error\<close> text as the argument.
\<close>

datatype error = InvalidInput string | NotFound string | Conflict string | Internal string

subsection \<open>Statements shared by the handlers\<close>

text \<open>The rowid an \<open>AUTOINCREMENT\<close> insert gets: one more than every rowid in use or ever used.\<close>

definition next_rowid :: "nat \<Rightarrow> nat list \<Rightarrow> nat" where
  "next_rowid seq ids = Suc (fold max ids seq)"

text \<open>
  \<open>UPDATE tables SET ... WHERE id = ?\<close>, followed for each row it touches by the trigger
  \<open>update_tables_timestamp\<close>, which stamps \<open>updated_at\<close>.
\<close>

definition update_table :: "nat \<Rightarrow> (table_row \<Rightarrow> table_row) \<Rightarrow> nat \<Rightarrow> 'p db \<Rightarrow> 'p db" where
  "update_table tid f now d =
     d\<lparr>tables := map (\<lambda>t. if t_id t = tid then (f t)\<lparr>t_updated_at := now\<rparr> else t) (tables d)\<rparr>"

text \<open>\<open>WHERE table_id = ? AND status != 'Paid'\<close>: the active orders of a table.\<close>

definition active_orders :: "'p db \<Rightarrow> nat \<Rightarrow> 'p order_row list" where
  "active_orders d tid = filter (\<lambda>r. table_id r = tid \<and> o_status r \<noteq> Paid) (orders d)"

section \<open>Bulk resync: POST /api/tables/sync-status\<close>

text \<open>
  \<open>SELECT status, COUNT(*) ... GROUP BY status\<close> over the active orders of a table: one
  row for each status that occurs.
\<close>

definition activeOrders_query :: "'p db \<Rightarrow> nat \<Rightarrow> (order_status \<times> nat) list" where
  "activeOrders_query d tid =
     (let sts = map o_status (active_orders d tid)
      in filter (\<lambda>(s, c). 0 < c)
           (map (\<lambda>s. (s, count_list sts s)) [Paid, Pending, Preparing, Ready, Served]))"

text \<open>
  \<open>SELECT SUM(oi.quantity) ... FROM orders o JOIN order_items oi\<close> over the lines of the
  active orders of a table; SQL's \<open>SUM\<close> of no row is \<open>NULL\<close>.
\<close>

definition active_quantities :: "'p db \<Rightarrow> nat \<Rightarrow> int list" where
  "active_quantities d tid =
     concat (map (\<lambda>r. map quantity (filter (\<lambda>i. order_id i = o_id r) (order_items d)))
                 (active_orders d tid))"

definition customerCount_query :: "'p db \<Rightarrow> nat \<Rightarrow> int option" where
  "customerCount_query d tid =
     (let qs = active_quantities d tid in if qs = [] then None else Some (sum_list qs))"

text \<open>
  The body of the loop between the two queries and the update. The last \<open>else\<close> of the
  source (active orders, none of the four active statuses) is kept as written.
\<close>

definition sync_decide :: "(order_status \<times> nat) list \<Rightarrow> int option \<Rightarrow> table_status \<times> int option" where
  "sync_decide activeOrders totalCustomers =
     (if activeOrders \<noteq> [] then
        (let hasPending = list_ex (\<lambda>order. fst order = Pending) activeOrders;
             hasPreparing = list_ex (\<lambda>order. fst order = Preparing) activeOrders;
             hasReady = list_ex (\<lambda>order. fst order = Ready) activeOrders;
             hasServed = list_ex (\<lambda>order. fst order = Served) activeOrders;
             newStatus = (if hasPending \<or> hasPreparing then Occupied
                          else if hasReady \<or> hasServed then Serving
                          else Occupied);
             customerCountValue =
               (case totalCustomers of
                  None \<Rightarrow> None
                | Some n \<Rightarrow> if n \<noteq> 0 then Some n else None)
         in (newStatus, customerCountValue))
      else (Free, None))"

definition sync_table :: "nat \<Rightarrow> 'p db \<Rightarrow> nat \<Rightarrow> 'p db" where
  "sync_table now d tid =
     (let r = sync_decide (activeOrders_query d tid) (customerCount_query d tid)
      in update_table tid (\<lambda>t. t\<lparr>t_status := fst r, customer_count := snd r\<rparr>) now d)"

text \<open>The handler: one pass over the rows of \<open>SELECT id, number FROM tables\<close>.\<close>

definition POST_sync_status :: "'p db \<Rightarrow> nat \<Rightarrow> (error + nat) \<times> 'p db" where
  "POST_sync_status d now =
     (Inr (length (tables d)), foldl (sync_table now) d (map t_id (tables d)))"

section \<open>Order service\<close>

subsection \<open>Requests, answers and single statements\<close>

text \<open>
  A JSON body is read field by field. A numeric field that is absent is falsy like \<open>0\<close>,
  so both are the number \<open>0\<close>; a string field that is absent is the empty string; a path
  identifier is what \<open>parseInt\<close> made of it, \<open>None\<close> for \<open>NaN\<close>. A quantity is a JSON
  integer. Bodies whose fields have other JSON types are outside the model.
\<close>

record item_req =
  ri_id :: nat
  ri_quantity :: int

record create_req =
  tableId :: nat
  items :: "item_req list"
  staffId :: nat

record 'p line_data =
  menuItemId :: nat
  ld_quantity :: int
  unitPrice :: 'p
  ld_subtotal :: 'p

text \<open>
  What the handlers answer for an order: the order row (absent when the final
  \<open>SELECT\<close> finds none) and its lines, each joined with its menu item. The columns the
  \<open>LEFT JOIN\<close>s add (table number, staff name) are left out. An answer is the object
  the handler hands to \<open>NextResponse.json\<close>; how that is written out is outside the model.
\<close>

type_synonym 'p order_with_items = "'p order_row option \<times> ('p order_item_row \<times> 'p menu_item_row) list"

fun string_of_nat :: "nat \<Rightarrow> string" where
  "string_of_nat n =
     (if n < 10 then [char_of (48 + n)]
      else string_of_nat (n div 10) @ [char_of (48 + n mod 10)])"

declare string_of_nat.simps [simp del]

definition parse_order_status :: "string \<Rightarrow> order_status option" where
  "parse_order_status s =
     (if s = ''Pending'' then Some Pending
      else if s = ''Preparing'' then Some Preparing
      else if s = ''Ready'' then Some Ready
      else if s = ''Served'' then Some Served
      else if s = ''Paid'' then Some Paid
      else None)"

definition parse_table_status :: "string \<Rightarrow> table_status option" where
  "parse_table_status s =
     (if s = ''Free'' then Some Free
      else if s = ''Occupied'' then Some Occupied
      else if s = ''Serving'' then Some Serving
      else if s = ''Billing'' then Some Billing
      else None)"

text \<open>
  \<open>UPDATE orders SET ... WHERE id = ?\<close> with the trigger \<open>update_orders_timestamp\<close>.
\<close>

definition update_order :: "nat \<Rightarrow> ('p order_row \<Rightarrow> 'p order_row) \<Rightarrow> nat \<Rightarrow> 'p db \<Rightarrow> 'p db" where
  "update_order oid f now d =
     d\<lparr>orders := map (\<lambda>r. if o_id r = oid then (f r)\<lparr>o_updated_at := now\<rparr> else r) (orders d)\<rparr>"

text \<open>
  The two \<open>SELECT\<close>s every order answer is built from: the order by identifier, and its
  lines \<open>FROM order_items oi JOIN menu_items mi ON oi.menu_item_id = mi.id\<close>.
\<close>

definition orderItems_query :: "'p db \<Rightarrow> nat \<Rightarrow> ('p order_item_row \<times> 'p menu_item_row) list" where
  "orderItems_query d oid =
     concat (map (\<lambda>oi. map (\<lambda>mi. (oi, mi)) (filter (\<lambda>mi. m_id mi = menu_item_id oi) (menu_items d)))
                 (filter (\<lambda>oi. order_id oi = oid) (order_items d)))"

definition fetch_order :: "'p db \<Rightarrow> nat \<Rightarrow> 'p order_with_items" where
  "fetch_order d oid = (find (\<lambda>r. o_id r = oid) (orders d), orderItems_query d oid)"

text \<open>
  Foreign keys are enforced (\<open>getDatabase\<close> sets the pragma \<open>foreign_keys = ON\<close>): an
  \<open>INSERT\<close> whose reference dangles throws, which is the result \<open>None\<close>. So does an
  \<open>INSERT\<close> of a NaN into an amount column: SQLite binds a NaN as \<open>NULL\<close>, and
  \<open>total_amount\<close>, \<open>unit_price\<close> and \<open>subtotal\<close> are declared \<open>NOT NULL\<close>. Which numbers
  are NaN is the parameter \<open>nan\<close>.
\<close>

definition insert_order :: "('p \<Rightarrow> bool) \<Rightarrow> nat \<Rightarrow> 'p \<Rightarrow> nat option \<Rightarrow> nat \<Rightarrow> 'p db \<Rightarrow> (nat \<times> 'p db) option" where
  "insert_order nan tid totalAmount sid now d =
     (if tid \<notin> set (map t_id (tables d)) \<or> (case sid of None \<Rightarrow> False | Some s \<Rightarrow> s \<notin> set (staff d))
         \<or> nan totalAmount
      then None
      else (let oid = next_rowid (seq_orders d) (map o_id (orders d))
            in Some (oid,
                 d\<lparr>orders := orders d @
                      [\<lparr>o_id = oid, table_id = tid, total_amount = totalAmount, o_status = Pending,
                        staff_id = sid, o_created_at = now, o_updated_at = now\<rparr>],
                   seq_orders := oid\<rparr>)))"

definition insert_order_item :: "('p \<Rightarrow> bool) \<Rightarrow> nat \<Rightarrow> 'p line_data \<Rightarrow> nat \<Rightarrow> 'p db \<Rightarrow> 'p db option" where
  "insert_order_item nan oid item now d =
     (if oid \<notin> set (map o_id (orders d)) \<or> menuItemId item \<notin> set (map m_id (menu_items d))
         \<or> nan (unitPrice item) \<or> nan (ld_subtotal item)
      then None
      else (let iid = next_rowid (seq_order_items d) (map oi_id (order_items d))
            in Some (d\<lparr>order_items := order_items d @
                         [\<lparr>oi_id = iid, order_id = oid, menu_item_id = menuItemId item,
                           quantity = ld_quantity item, unit_price = unitPrice item,
                           subtotal = ld_subtotal item, oi_created_at = now\<rparr>],
                       seq_order_items := iid\<rparr>)))"

fun insert_order_items :: "('p \<Rightarrow> bool) \<Rightarrow> nat \<Rightarrow> 'p line_data list \<Rightarrow> nat \<Rightarrow> 'p db \<Rightarrow> 'p db option" where
  "insert_order_items nan oid [] now d = Some d"
| "insert_order_items nan oid (item # rest) now d =
     (case insert_order_item nan oid item now d of
        None \<Rightarrow> None
      | Some d' \<Rightarrow> insert_order_items nan oid rest now d')"

text \<open>
  The body of \<open>db.transaction\<close> in both create handlers: the order, its lines, the table
  set to Occupied. \<open>None\<close> is a throw, which rolls everything back.
\<close>

definition create_order_tx :: "('p \<Rightarrow> bool) \<Rightarrow> nat \<Rightarrow> 'p \<Rightarrow> nat option \<Rightarrow> 'p line_data list \<Rightarrow> nat \<Rightarrow> 'p db \<Rightarrow> (nat \<times> 'p db) option" where
  "create_order_tx nan tid totalAmount sid orderItemsData now d =
     (case insert_order nan tid totalAmount sid now d of
        None \<Rightarrow> None
      | Some (orderId, d1) \<Rightarrow>
          (case insert_order_items nan orderId orderItemsData now d1 of
             None \<Rightarrow> None
           | Some d2 \<Rightarrow> Some (orderId, update_table tid (\<lambda>t. t\<lparr>t_status := Occupied\<rparr>) now d2)))"

subsection \<open>Create order: POST /api/orders\<close>

text \<open>
  The pricing loop: every line is checked, then priced from the menu as it is now. The
  subtotal is the machine product of price and quantity, and the total is the machine sum
  of the subtotals, added one by one to \<open>0\<close> in the order of the request.
\<close>

fun price_items :: "(int \<Rightarrow> 'p) \<Rightarrow> ('p::{plus,times}) db \<Rightarrow> item_req list \<Rightarrow> 'p \<Rightarrow> 'p line_data list \<Rightarrow> error + ('p \<times> 'p line_data list)" where
  "price_items num d [] totalAmount orderItemsData = Inr (totalAmount, orderItemsData)"
| "price_items num d (item # rest) totalAmount orderItemsData =
     (if ri_id item = 0 \<or> ri_quantity item \<le> 0 then Inl (InvalidInput ''Invalid item data'')
      else (case find (\<lambda>m. m_id m = ri_id item) (menu_items d) of
              None \<Rightarrow> Inl (NotFound (''Menu item with ID '' @ string_of_nat (ri_id item) @ '' not found''))
            | Some menuItem \<Rightarrow>
                (let subtotal = price menuItem * num (ri_quantity item)
                 in price_items num d rest (totalAmount + subtotal)
                      (orderItemsData @
                         [\<lparr>menuItemId = ri_id item, ld_quantity = ri_quantity item,
                           unitPrice = price menuItem, ld_subtotal = subtotal\<rparr>]))))"

definition POST_orders :: "(int \<Rightarrow> 'p) \<Rightarrow> ('p \<Rightarrow> bool) \<Rightarrow> ('p::{zero,plus,times}) db \<Rightarrow> nat \<Rightarrow> create_req \<Rightarrow> (error + 'p order_with_items) \<times> 'p db" where
  "POST_orders num nan d now body =
     (if tableId body = 0 \<or> items body = []
      then (Inl (InvalidInput ''Table ID and items array are required''), d)
      else if find (\<lambda>t. t_id t = tableId body) (tables d) = None
      then (Inl (NotFound ''Table not found''), d)
      else (case price_items num d (items body) 0 [] of
              Inl e \<Rightarrow> (Inl e, d)
            | Inr (totalAmount, orderItemsData) \<Rightarrow>
                (case create_order_tx nan (tableId body) totalAmount
                        (if staffId body = 0 then None else Some (staffId body))
                        orderItemsData now d of
                   None \<Rightarrow> (Inl (Internal ''Failed to create order''), d)
                 | Some (orderId, d') \<Rightarrow> (Inr (fetch_order d' orderId), d'))))"

subsection \<open>The second create handler\<close>

text \<open>
  The repository holds a second \<open>POST\<close> that creates an order: it checks neither the table
  nor the quantities, answers 400 for a missing menu item, and returns the new identifier
  and the total.
\<close>

fun price_items2 :: "(int \<Rightarrow> 'p) \<Rightarrow> ('p::{plus,times}) db \<Rightarrow> item_req list \<Rightarrow> 'p \<Rightarrow> 'p line_data list \<Rightarrow> error + ('p \<times> 'p line_data list)" where
  "price_items2 num d [] totalAmount orderItems = Inr (totalAmount, orderItems)"
| "price_items2 num d (item # rest) totalAmount orderItems =
     (case find (\<lambda>m. m_id m = ri_id item) (menu_items d) of
        None \<Rightarrow> Inl (InvalidInput (''Menu item with ID '' @ string_of_nat (ri_id item) @ '' not found''))
      | Some menuItem \<Rightarrow>
          (let subtotal = price menuItem * num (ri_quantity item)
           in price_items2 num d rest (totalAmount + subtotal)
                (orderItems @
                   [\<lparr>menuItemId = ri_id item, ld_quantity = ri_quantity item,
                     unitPrice = price menuItem, ld_subtotal = subtotal\<rparr>])))"

definition POST_orders2 :: "(int \<Rightarrow> 'p) \<Rightarrow> ('p \<Rightarrow> bool) \<Rightarrow> ('p::{zero,plus,times}) db \<Rightarrow> nat \<Rightarrow> create_req \<Rightarrow> (error + nat \<times> 'p) \<times> 'p db" where
  "POST_orders2 num nan d now body =
     (if tableId body = 0 \<or> items body = []
      then (Inl (InvalidInput ''Table ID and items are required''), d)
      else (case price_items2 num d (items body) 0 [] of
              Inl e \<Rightarrow> (Inl e, d)
            | Inr (totalAmount, orderItems) \<Rightarrow>
                (case create_order_tx nan (tableId body) totalAmount None orderItems now d of
                   None \<Rightarrow> (Inl (Internal ''Failed to create order, please try again''), d)
                 | Some (orderId, d') \<Rightarrow> (Inr (orderId, totalAmount), d'))))"

subsection \<open>Update order: PUT /api/orders/[id]\<close>

text \<open>
  The body of the transaction: the partial update of the order row, then the table status
  chosen from the new order status alone, except for Paid, which counts the other active
  orders of the table.
\<close>

definition PUT_order_tx :: "'p order_row \<Rightarrow> nat \<Rightarrow> order_status option \<Rightarrow> nat \<Rightarrow> nat \<Rightarrow> 'p db \<Rightarrow> 'p db option" where
  "PUT_order_tx existingOrder orderId status sid now d =
     (if sid \<noteq> 0 \<and> sid \<notin> set (staff d) then None
      else (let d1 = update_order orderId
                       (\<lambda>r. r\<lparr>o_status := (case status of None \<Rightarrow> o_status r | Some s \<Rightarrow> s),
                              staff_id := (if sid = 0 then staff_id r else Some sid)\<rparr>) now d
            in (case status of
                  None \<Rightarrow> Some d1
                | Some s \<Rightarrow>
                    (let tableStatus =
                           (case s of
                              Pending \<Rightarrow> Some Occupied
                            | Preparing \<Rightarrow> Some Occupied
                            | Ready \<Rightarrow> Some Serving
                            | Served \<Rightarrow> Some Serving
                            | Paid \<Rightarrow>
                                (let activeOrdersCount =
                                       length (filter (\<lambda>r. table_id r = table_id existingOrder
                                                            \<and> o_status r \<noteq> Paid \<and> o_id r \<noteq> orderId)
                                                 (orders d1))
                                 in if 0 < activeOrdersCount then Some Occupied else Some Billing))
                     in (case tableStatus of
                           None \<Rightarrow> Some d1
                         | Some ts \<Rightarrow>
                             Some (update_table (table_id existingOrder) (\<lambda>t. t\<lparr>t_status := ts\<rparr>) now d1))))))"

text \<open>
  A handler's trace is the list of states it commits, in order: one state for a
  \<open>db.transaction\<close> that returns, none for one that throws, and one state for each statement
  run outside a transaction.
\<close>

definition PUT_order_trace :: "'p db \<Rightarrow> nat \<Rightarrow> nat option \<Rightarrow> string \<Rightarrow> nat \<Rightarrow> (error + 'p order_with_items) \<times> 'p db list" where
  "PUT_order_trace d now ident status sid =
     (case ident of
        None \<Rightarrow> (Inl (InvalidInput ''Invalid order ID''), [])
      | Some orderId \<Rightarrow>
          if status \<noteq> [] \<and> parse_order_status status = None
          then (Inl (InvalidInput ''Invalid order status''), [])
          else (case find (\<lambda>r. o_id r = orderId) (orders d) of
                  None \<Rightarrow> (Inl (NotFound ''Order not found''), [])
                | Some existingOrder \<Rightarrow>
                    (case PUT_order_tx existingOrder orderId (parse_order_status status) sid now d of
                       None \<Rightarrow> (Inl (Internal ''Failed to update order''), [])
                     | Some d' \<Rightarrow> (Inr (fetch_order d' orderId), [d']))))"

definition PUT_order :: "'p db \<Rightarrow> nat \<Rightarrow> nat option \<Rightarrow> string \<Rightarrow> nat \<Rightarrow> (error + 'p order_with_items) \<times> 'p db" where
  "PUT_order d now ident status sid =
     (let r = PUT_order_trace d now ident status sid in (fst r, last (d # snd r)))"

subsection \<open>Update order status: PATCH /api/orders/[id]/status\<close>

text \<open>
  The columns of \<open>orders\<close> as \<open>getDatabase\<close> and the initialisation script create the
  relation. \<open>db.prepare\<close> throws on a statement that names a column its relation does not
  have; \<open>prepares\<close> takes the column names a statement on \<open>orders\<close> uses.
\<close>

definition orders_columns :: "string list" where
  "orders_columns =
     [''id'', ''table_id'', ''total_amount'', ''status'', ''staff_id'', ''created_at'', ''updated_at'']"

definition prepares :: "string list \<Rightarrow> bool" where
  "prepares cols \<longleftrightarrow> set cols \<subseteq> set orders_columns"

text \<open>
  The handler as it is written, each statement on \<open>orders\<close> with the columns it names:
  \<open>UPDATE orders SET status = ?, updatedAt = CURRENT_TIMESTAMP WHERE id = ?\<close>, then
  \<open>SELECT tableId FROM orders WHERE id = ?\<close> and the count \<open>WHERE tableId = ? AND status IN
  (...)\<close>. No statement runs inside a transaction, and a throw is answered 500. Since the
  first statement names \<open>updatedAt\<close>, which \<open>orders\<close> does not have, the handler throws
  before it writes anything; the rest of its text is kept as written.
\<close>

definition PATCH_order_status_trace :: "'p db \<Rightarrow> nat \<Rightarrow> nat option \<Rightarrow> string \<Rightarrow> (error + nat \<times> string) \<times> 'p db list" where
  "PATCH_order_status_trace d now ident status =
     (if status = [] then (Inl (InvalidInput ''Status is required''), [])
      else (case parse_order_status status of
              None \<Rightarrow> (Inl (InvalidInput ''Invalid status''), [])
            | Some s \<Rightarrow>
                if \<not> prepares [''status'', ''updatedAt'', ''id'']
                then (Inl (Internal ''Failed to update order status''), [])
                else (case ident of
                        None \<Rightarrow> (Inl (NotFound ''Order not found''), [])
                      | Some orderId \<Rightarrow>
                          if orderId \<notin> set (map o_id (orders d))
                          then (Inl (NotFound ''Order not found''), [])
                          else (let d1 = update_order orderId (\<lambda>r. r\<lparr>o_status := s\<rparr>) now d
                                in if s = Paid
                                   then (if \<not> prepares [''tableId'', ''id'']
                                         then (Inl (Internal ''Failed to update order status''), [d1])
                                         else (case find (\<lambda>r. o_id r = orderId) (orders d1) of
                                           None \<Rightarrow> (Inr (orderId, status), [d1])
                                         | Some order \<Rightarrow>
                                             if \<not> prepares [''tableId'', ''status'']
                                             then (Inl (Internal ''Failed to update order status''), [d1])
                                             else
                                             (let activeOrders =
                                                    length (filter (\<lambda>r. table_id r = table_id order
                                                                         \<and> o_status r \<in> {Pending, Preparing, Ready, Served})
                                                              (orders d1))
                                              in if activeOrders = 0
                                                 then (Inr (orderId, status),
                                                       [d1, update_table (table_id order) (\<lambda>t. t\<lparr>t_status := Free\<rparr>) now d1])
                                                 else (Inr (orderId, status), [d1]))))
                                   else (Inr (orderId, status), [d1])))))"

definition PATCH_order_status :: "'p db \<Rightarrow> nat \<Rightarrow> nat option \<Rightarrow> string \<Rightarrow> (error + nat \<times> string) \<times> 'p db" where
  "PATCH_order_status d now ident status =
     (let r = PATCH_order_status_trace d now ident status in (fst r, last (d # snd r)))"

subsection \<open>Cancel order: DELETE /api/orders/[id]\<close>

text \<open>
  The body of the transaction: the order goes, \<open>ON DELETE CASCADE\<close> takes its lines, and the
  table is freed when no active order is left.
\<close>

definition DELETE_order_tx :: "'p order_row \<Rightarrow> nat \<Rightarrow> nat \<Rightarrow> 'p db \<Rightarrow> 'p db" where
  "DELETE_order_tx existingOrder orderId now d =
     (let d1 = d\<lparr>orders := filter (\<lambda>r. o_id r \<noteq> orderId) (orders d),
                 order_items := filter (\<lambda>i. order_id i \<noteq> orderId) (order_items d)\<rparr>;
          otherOrdersCount = length (active_orders d1 (table_id existingOrder))
      in if otherOrdersCount = 0
         then update_table (table_id existingOrder)
                (\<lambda>t. t\<lparr>t_status := Free, customer_count := None\<rparr>) now d1
         else d1)"

definition DELETE_order :: "'p db \<Rightarrow> nat \<Rightarrow> nat option \<Rightarrow> (error + string) \<times> 'p db" where
  "DELETE_order d now ident =
     (case ident of
        None \<Rightarrow> (Inl (InvalidInput ''Invalid order ID''), d)
      | Some orderId \<Rightarrow>
          (case find (\<lambda>r. o_id r = orderId) (orders d) of
             None \<Rightarrow> (Inl (NotFound ''Order not found''), d)
           | Some existingOrder \<Rightarrow>
               if o_status existingOrder \<noteq> Pending
               then (Inl (InvalidInput ''Can only cancel pending orders''), d)
               else (Inr ''Order cancelled successfully'',
                     DELETE_order_tx existingOrder orderId now d)))"

section \<open>Tables and menu\<close>

subsection \<open>Orders of a table: GET /api/tables/[id]/orders\<close>

text \<open>
  \<open>ORDER BY o.created_at DESC\<close> is the reverse of a stable ascending sort; SQL leaves the
  order among equal timestamps open.
\<close>

definition GET_table_orders :: "'p db \<Rightarrow> nat option \<Rightarrow> error + ('p order_row \<times> ('p order_item_row \<times> 'p menu_item_row) list) list" where
  "GET_table_orders d ident =
     (case ident of
        None \<Rightarrow> Inl (InvalidInput ''Invalid table ID'')
      | Some tid \<Rightarrow>
          (let rows = rev (sort_key o_created_at (active_orders d tid))
           in Inr (map (\<lambda>order. (order, orderItems_query d (o_id order))) rows)))"

subsection \<open>Tables: POST /api/tables and PUT /api/tables/[id]\<close>

definition POST_tables :: "'p db \<Rightarrow> nat \<Rightarrow> nat \<Rightarrow> string option \<Rightarrow> int \<Rightarrow> (error + table_row option) \<times> 'p db" where
  "POST_tables d now number status customerCount =
     (if number = 0 then (Inl (InvalidInput ''Table number is required and must be a number''), d)
      else (case parse_table_status (case status of None \<Rightarrow> ''Free'' | Some s \<Rightarrow> s) of
              None \<Rightarrow> (Inl (Internal ''Failed to create table''), d)
            | Some st \<Rightarrow>
                if number \<in> set (map t_number (tables d))
                then (Inl (Conflict ''Table number already exists''), d)
                else (let tid = next_rowid (seq_tables d) (map t_id (tables d));
                          d' = d\<lparr>tables := tables d @
                                   [\<lparr>t_id = tid, t_number = number, t_status = st,
                                     customer_count = (if customerCount = 0 then None else Some customerCount),
                                     t_created_at = now, t_updated_at = now\<rparr>],
                                 seq_tables := tid\<rparr>
                      in (Inr (find (\<lambda>t. t_id t = tid) (tables d')), d'))))"

definition PUT_table :: "'p db \<Rightarrow> nat \<Rightarrow> nat option \<Rightarrow> string \<Rightarrow> int \<Rightarrow> (error + table_row option) \<times> 'p db" where
  "PUT_table d now ident status customerCount =
     (case ident of
        None \<Rightarrow> (Inl (InvalidInput ''Invalid table ID''), d)
      | Some tid \<Rightarrow>
          if status \<noteq> [] \<and> parse_table_status status = None
          then (Inl (InvalidInput ''Invalid table status''), d)
          else if find (\<lambda>t. t_id t = tid) (tables d) = None
          then (Inl (NotFound ''Table not found''), d)
          else (let d' = update_table tid
                           (\<lambda>t. t\<lparr>t_status := (case parse_table_status status of
                                                None \<Rightarrow> t_status t | Some s \<Rightarrow> s),
                                  customer_count := (if customerCount = 0 then customer_count t
                                                     else Some customerCount)\<rparr>) now d
                in (Inr (find (\<lambda>t. t_id t = tid) (tables d')), d')))"

subsection \<open>Menu: PUT and DELETE /api/menu/[id]\<close>

text \<open>
  \<open>newPrice\<close> is \<open>None\<close> when the body has no price. The check of the category goes
  with the column, which is left out; it answers 400 before any write. The update fires the
  trigger \<open>update_menu_items_timestamp\<close>. Deleting a menu item cascades to the order lines
  that reference it.
\<close>

definition PUT_menu :: "('p::{zero,ord}) db \<Rightarrow> nat \<Rightarrow> nat option \<Rightarrow> string \<Rightarrow> 'p option \<Rightarrow> bool option \<Rightarrow> (error + 'p menu_item_row option) \<times> 'p db" where
  "PUT_menu d now ident name newPrice isAvailable =
     (case ident of
        None \<Rightarrow> (Inl (InvalidInput ''Invalid menu item ID''), d)
      | Some itemId \<Rightarrow>
          if (case newPrice of None \<Rightarrow> False | Some p \<Rightarrow> p \<le> 0)
          then (Inl (InvalidInput ''Price must be a positive number''), d)
          else if find (\<lambda>m. m_id m = itemId) (menu_items d) = None
          then (Inl (NotFound ''Menu item not found''), d)
          else (let d' = d\<lparr>menu_items :=
                             map (\<lambda>m. if m_id m = itemId
                                       then m\<lparr>m_name := (if name = [] then m_name m else name),
                                              price := (case newPrice of None \<Rightarrow> price m | Some p \<Rightarrow> p),
                                              is_available := (case isAvailable of
                                                                 None \<Rightarrow> is_available m | Some b \<Rightarrow> b),
                                              m_updated_at := now\<rparr>
                                       else m)
                                 (menu_items d)\<rparr>
                in (Inr (find (\<lambda>m. m_id m = itemId) (menu_items d')), d')))"

definition DELETE_menu :: "'p db \<Rightarrow> nat option \<Rightarrow> (error + string) \<times> 'p db" where
  "DELETE_menu d ident =
     (case ident of
        None \<Rightarrow> (Inl (InvalidInput ''Invalid menu item ID''), d)
      | Some itemId \<Rightarrow>
          if find (\<lambda>m. m_id m = itemId) (menu_items d) = None
          then (Inl (NotFound ''Menu item not found''), d)
          else (Inr ''Menu item deleted successfully'',
                d\<lparr>menu_items := filter (\<lambda>m. m_id m \<noteq> itemId) (menu_items d),
                  order_items := filter (\<lambda>i. menu_item_id i \<noteq> itemId) (order_items d)\<rparr>))"

section \<open>Example states\<close>

text \<open>
  The example states hold exact rationals for money, with the exact product and sum;
  \<open>of_int\<close> is then the number an integer is, and no number is NaN. Their amounts are
  small integers, on which the machine's product and sum are exact as well.
\<close>

definition db_seed :: "rat db" where
  "db_seed =
     \<lparr>tables = [\<lparr>t_id = 1, t_number = 5, t_status = Free, customer_count = None,
                 t_created_at = 0, t_updated_at = 0\<rparr>],
      menu_items = [\<lparr>m_id = 1, m_name = ''A'', price = 10, is_available = True, m_updated_at = 0\<rparr>,
                    \<lparr>m_id = 2, m_name = ''B'', price = 5, is_available = True, m_updated_at = 0\<rparr>],
      staff = [], orders = [], order_items = [],
      seq_tables = 1, seq_orders = 0, seq_order_items = 0\<rparr>"

definition db_mixed :: "rat db" where
  "db_mixed =
     \<lparr>tables = [\<lparr>t_id = 1, t_number = 5, t_status = Billing, customer_count = None,
                 t_created_at = 0, t_updated_at = 0\<rparr>,
                \<lparr>t_id = 2, t_number = 6, t_status = Free, customer_count = Some 9,
                 t_created_at = 0, t_updated_at = 0\<rparr>,
                \<lparr>t_id = 3, t_number = 7, t_status = Occupied, customer_count = Some 4,
                 t_created_at = 0, t_updated_at = 0\<rparr>],
      menu_items = [\<lparr>m_id = 1, m_name = ''A'', price = 10, is_available = True, m_updated_at = 0\<rparr>],
      staff = [],
      orders = [\<lparr>o_id = 1, table_id = 1, total_amount = 10, o_status = Ready, staff_id = None,
                 o_created_at = 1, o_updated_at = 1\<rparr>,
                \<lparr>o_id = 2, table_id = 1, total_amount = 20, o_status = Pending, staff_id = None,
                 o_created_at = 2, o_updated_at = 2\<rparr>,
                \<lparr>o_id = 3, table_id = 2, total_amount = 20, o_status = Served, staff_id = None,
                 o_created_at = 3, o_updated_at = 3\<rparr>,
                \<lparr>o_id = 4, table_id = 3, total_amount = 10, o_status = Paid, staff_id = None,
                 o_created_at = 4, o_updated_at = 4\<rparr>],
      order_items = [\<lparr>oi_id = 1, order_id = 1, menu_item_id = 1, quantity = 1, unit_price = 10,
                      subtotal = 10, oi_created_at = 1\<rparr>,
                     \<lparr>oi_id = 2, order_id = 2, menu_item_id = 1, quantity = 2, unit_price = 10,
                      subtotal = 20, oi_created_at = 2\<rparr>,
                     \<lparr>oi_id = 3, order_id = 3, menu_item_id = 1, quantity = 2, unit_price = 10,
                      subtotal = 20, oi_created_at = 3\<rparr>,
                     \<lparr>oi_id = 4, order_id = 4, menu_item_id = 1, quantity = 1, unit_price = 10,
                      subtotal = 10, oi_created_at = 4\<rparr>],
      seq_tables = 3, seq_orders = 4, seq_order_items = 4\<rparr>"

text \<open>
  An order with one line of quantity 0, as the second create handler accepts it; and an
  order whose only line went with its menu item.
\<close>

definition db_zero_qty :: "rat db" where
  "db_zero_qty =
     snd (POST_orders2 of_int (\<lambda>_. False) db_seed 7
            \<lparr>tableId = 1, items = [\<lparr>ri_id = 1, ri_quantity = 0\<rparr>], staffId = 0\<rparr>)"

definition db_no_lines :: "rat db" where
  "db_no_lines =
     snd (DELETE_menu
            (snd (POST_orders of_int (\<lambda>_. False) db_seed 7
                    \<lparr>tableId = 1, items = [\<lparr>ri_id = 1, ri_quantity = 2\<rparr>], staffId = 0\<rparr>))
            (Some 1))"

text \<open>The seed after one order of two lines for its table.\<close>

definition two_lines :: create_req where
  "two_lines =
     \<lparr>tableId = 1,
      items = [\<lparr>ri_id = 1, ri_quantity = 2\<rparr>, \<lparr>ri_id = 2, ri_quantity = 1\<rparr>],
      staffId = 0\<rparr>"

definition db_one_order :: "rat db" where
  "db_one_order = snd (POST_orders of_int (\<lambda>_. False) db_seed 7 two_lines)"

text \<open>What the examples read off an order answer: total, and per line menu item, quantity, unit price, subtotal.\<close>

definition amounts :: "rat order_with_items \<Rightarrow> rat option \<times> (nat \<times> int \<times> rat \<times> rat) list" where
  "amounts r =
     (map_option total_amount (fst r),
      map (\<lambda>l. (menu_item_id (fst l), quantity (fst l), unit_price (fst l), subtotal (fst l))) (snd r))"


text \<open>A request whose second line names a menu item that the seed does not have.\<close>

definition one_missing :: create_req where
  "one_missing =
     \<lparr>tableId = 1,
      items = [\<lparr>ri_id = 1, ri_quantity = 1\<rparr>, \<lparr>ri_id = 999, ri_quantity = 1\<rparr>],
      staffId = 0\<rparr>"

text \<open>A request of one line for table 1.\<close>

definition one_line :: create_req where
  "one_line = \<lparr>tableId = 1, items = [\<lparr>ri_id = 1, ri_quantity = 2\<rparr>], staffId = 0\<rparr>"

text \<open>
  Three states that completed operations leave: the seed after a resync, the one-order state
  after its order was marked Paid, the three-table state after order 1 was marked Served.
\<close>

definition db_resynced :: "rat db" where
  "db_resynced = snd (POST_sync_status db_seed 9)"

definition db_paid :: "rat db" where
  "db_paid = snd (PUT_order db_one_order 8 (Some 1) ''Paid'' 0)"

definition db_served :: "rat db" where
  "db_served = snd (PUT_order db_mixed 8 (Some 1) ''Served'' 0)"

section \<open>Auxiliary definitions\<close>

text \<open>What one pass of the resync loop makes of a table row.\<close>

definition resync_row :: "'p db \<Rightarrow> nat \<Rightarrow> table_row \<Rightarrow> table_row" where
  "resync_row d now t =
     t\<lparr>t_status := fst (sync_decide (activeOrders_query d (t_id t)) (customerCount_query d (t_id t))),
       customer_count := snd (sync_decide (activeOrders_query d (t_id t)) (customerCount_query d (t_id t))),
       t_updated_at := now\<rparr>"

text \<open>
  The constraints the schema declares and the store enforces: primary keys and the unique
  table number, rowids from 1, and the four foreign keys.
\<close>

definition wf_db :: "'p db \<Rightarrow> bool" where
  "wf_db d \<longleftrightarrow>
     distinct (map t_id (tables d)) \<and> distinct (map t_number (tables d)) \<and>
     distinct (map m_id (menu_items d)) \<and> distinct (map o_id (orders d)) \<and>
     distinct (map oi_id (order_items d)) \<and>
     0 \<notin> set (map t_id (tables d)) \<and> 0 \<notin> set (map m_id (menu_items d)) \<and>
     (\<forall>r \<in> set (orders d).
        table_id r \<in> set (map t_id (tables d)) \<and>
        set_option (staff_id r) \<subseteq> set (staff d)) \<and>
     (\<forall>i \<in> set (order_items d).
        order_id i \<in> set (map o_id (orders d)) \<and>
        menu_item_id i \<in> set (map m_id (menu_items d)))"

text \<open>The row an \<open>INSERT INTO order_items\<close> stores for a priced line of order \<open>oid\<close>.\<close>

definition line_row :: "nat \<Rightarrow> nat \<Rightarrow> 'p line_data \<Rightarrow> 'p order_item_row \<Rightarrow> bool" where
  "line_row oid now l row \<longleftrightarrow>
     order_id row = oid \<and> menu_item_id row = menuItemId l \<and> quantity row = ld_quantity l \<and>
     unit_price row = unitPrice l \<and> subtotal row = ld_subtotal l \<and> oi_created_at row = now"

text \<open>
  The subtotals that the lines of a request price to against the menu of \<open>d\<close>, line by
  line: the product the pricing loop forms for each line whose menu item is found.
\<close>

definition line_subtotals :: "(int \<Rightarrow> 'p) \<Rightarrow> ('p::times) db \<Rightarrow> item_req list \<Rightarrow> 'p list" where
  "line_subtotals num d its =
     concat (map (\<lambda>it. case find (\<lambda>m. m_id m = ri_id it) (menu_items d) of
                          None \<Rightarrow> []
                        | Some m \<Rightarrow> [price m * num (ri_quantity it)]) its)"

text \<open>
  The derivation the specification words for a table: from the statuses of its orders that
  are not Paid, Free when there is none, Occupied when one of them is Pending or Preparing,
  Serving when all of them are Ready or Served.
\<close>

definition derived_status :: "order_status list \<Rightarrow> table_status" where
  "derived_status sts =
     (if sts = [] then Free
      else if Pending \<in> set sts \<or> Preparing \<in> set sts then Occupied
      else Serving)"

section \<open>Bulk resync (C3)\<close>

lemma update_table_frame:
  "orders (update_table tid f now d) = orders d"
  "order_items (update_table tid f now d) = order_items d"
  "menu_items (update_table tid f now d) = menu_items d"
  "staff (update_table tid f now d) = staff d"
  "tables (update_table tid f now d) =
     map (\<lambda>t. if t_id t = tid then (f t)\<lparr>t_updated_at := now\<rparr> else t) (tables d)"
  by (simp_all add: update_table_def)

lemma queries_cong:
  assumes "orders d' = orders d" "order_items d' = order_items d"
  shows "activeOrders_query d' tid = activeOrders_query d tid"
    and "customerCount_query d' tid = customerCount_query d tid"
  using assms
  by (simp_all add: activeOrders_query_def customerCount_query_def active_quantities_def active_orders_def)

lemma sync_table_frame:
  "orders (sync_table now d tid) = orders d"
  "order_items (sync_table now d tid) = order_items d"
  "menu_items (sync_table now d tid) = menu_items d"
  by (simp_all add: sync_table_def Let_def update_table_frame)

lemma sync_table_tables:
  assumes "orders d' = orders d" "order_items d' = order_items d"
  shows "tables (sync_table now d' tid) =
           map (\<lambda>t. if t_id t = tid then resync_row d now t else t) (tables d')"
  using queries_cong[OF assms]
  by (simp add: sync_table_def Let_def update_table_frame resync_row_def)

lemma resync_row_idem [simp]:
  "t_id (resync_row d now t) = t_id t"
  "resync_row d now (resync_row d now t) = resync_row d now t"
  by (simp_all add: resync_row_def)

lemma foldl_sync_table:
  assumes "orders d' = orders d" "order_items d' = order_items d"
  shows "tables (foldl (sync_table now) d' ids) =
           map (\<lambda>t. if t_id t \<in> set ids then resync_row d now t else t) (tables d')
         \<and> orders (foldl (sync_table now) d' ids) = orders d
         \<and> order_items (foldl (sync_table now) d' ids) = order_items d
         \<and> menu_items (foldl (sync_table now) d' ids) = menu_items d'"
  using assms
proof (induction ids arbitrary: d')
  case Nil
  then show ?case by simp
next
  case (Cons a ids)
  have o: "orders (sync_table now d' a) = orders d" "order_items (sync_table now d' a) = order_items d"
    using Cons.prems by (simp_all add: sync_table_frame)
  show ?case
    using Cons.IH[OF o] sync_table_tables[OF Cons.prems, of now a]
    by (auto simp: sync_table_frame)
qed

lemma sync_tables_eq:
  "tables (snd (POST_sync_status d now)) = map (resync_row d now) (tables d)"
  "orders (snd (POST_sync_status d now)) = orders d"
  "order_items (snd (POST_sync_status d now)) = order_items d"
  using foldl_sync_table[of d d now "map t_id (tables d)"]
  by (simp_all add: POST_sync_status_def)

lemma activeOrders_query_empty:
  "activeOrders_query d tid = [] \<longleftrightarrow> active_orders d tid = []"
proof
  assume "active_orders d tid = []"
  then show "activeOrders_query d tid = []" by (simp add: activeOrders_query_def)
next
  assume e: "activeOrders_query d tid = []"
  show "active_orders d tid = []"
  proof (rule ccontr)
    assume "active_orders d tid \<noteq> []"
    then obtain r rs where "active_orders d tid = r # rs" by (cases "active_orders d tid") auto
    then have "0 < count_list (map o_status (active_orders d tid)) (o_status r)" by simp
    then have "(o_status r, count_list (map o_status (active_orders d tid)) (o_status r)) \<in> set (activeOrders_query d tid)"
      by (cases "o_status r") (auto simp: activeOrders_query_def Let_def)
    with e show False by simp
  qed
qed

lemma count_list_pos: "0 < count_list xs x \<longleftrightarrow> x \<in> set xs"
  by (induction xs) auto

lemma activeOrders_query_has:
  "list_ex (\<lambda>order. fst order = s) (activeOrders_query d tid) \<longleftrightarrow> s \<in> o_status ` set (active_orders d tid)"
  by (cases s) (auto simp: activeOrders_query_def Let_def list_ex_iff count_list_pos)


lemma sync_decide_status:
  "fst (sync_decide (activeOrders_query d tid) c) =
     (if active_orders d tid = [] then Free
      else if Pending \<in> o_status ` set (active_orders d tid) \<or> Preparing \<in> o_status ` set (active_orders d tid)
      then Occupied
      else if Ready \<in> o_status ` set (active_orders d tid) \<or> Served \<in> o_status ` set (active_orders d tid)
      then Serving else Occupied)"
  by (simp add: sync_decide_def Let_def activeOrders_query_has activeOrders_query_empty)

lemma sync_decide_count:
  "snd (sync_decide (activeOrders_query d tid) (customerCount_query d tid)) =
     (if active_orders d tid \<noteq> [] \<and> sum_list (active_quantities d tid) \<noteq> 0
      then Some (sum_list (active_quantities d tid)) else None)"
  by (simp add: sync_decide_def Let_def activeOrders_query_empty customerCount_query_def)

lemma active_status_cases:
  assumes "r \<in> set (active_orders d tid)"
  shows "o_status r = Pending \<or> o_status r = Preparing \<or> o_status r = Ready \<or> o_status r = Served"
  using assms by (cases "o_status r") (auto simp: active_orders_def)

lemma resync_row_status:
  "t_status (resync_row d now t) =
     (if active_orders d (t_id t) = [] then Free
      else if Pending \<in> o_status ` set (active_orders d (t_id t))
            \<or> Preparing \<in> o_status ` set (active_orders d (t_id t))
      then Occupied
      else if Ready \<in> o_status ` set (active_orders d (t_id t))
            \<or> Served \<in> o_status ` set (active_orders d (t_id t))
      then Serving else Occupied)"
  by (simp add: resync_row_def sync_decide_status)

lemma resync_row_count:
  "customer_count (resync_row d now t) =
     (if active_orders d (t_id t) \<noteq> [] \<and> sum_list (active_quantities d (t_id t)) \<noteq> 0
      then Some (sum_list (active_quantities d (t_id t))) else None)"
  by (simp add: resync_row_def sync_decide_count)

lemma resync_row_free:
  "active_orders d (t_id t) = [] \<Longrightarrow> t_status (resync_row d now t) = Free"
  by (simp add: resync_row_status)

lemma resync_row_occupied:
  assumes "r \<in> set (active_orders d (t_id t))" "o_status r = Pending \<or> o_status r = Preparing"
  shows "t_status (resync_row d now t) = Occupied"
proof -
  have ne: "active_orders d (t_id t) \<noteq> []" using assms(1) by auto
  have "Pending \<in> o_status ` set (active_orders d (t_id t))
        \<or> Preparing \<in> o_status ` set (active_orders d (t_id t))"
    using assms by (metis imageI)
  with ne show ?thesis by (simp add: resync_row_status)
qed

lemma resync_row_serving:
  assumes ne: "active_orders d (t_id t) \<noteq> []"
    and all: "\<forall>r \<in> set (active_orders d (t_id t)). o_status r = Ready \<or> o_status r = Served"
  shows "t_status (resync_row d now t) = Serving"
proof -
  obtain r where r: "r \<in> set (active_orders d (t_id t))"
    using ne by (cases "active_orders d (t_id t)") auto
  have np: "\<not> (Pending \<in> o_status ` set (active_orders d (t_id t))
        \<or> Preparing \<in> o_status ` set (active_orders d (t_id t)))"
    using all by auto
  have "o_status r = Ready \<or> o_status r = Served" using all r by blast
  then have rs: "Ready \<in> o_status ` set (active_orders d (t_id t))
        \<or> Served \<in> o_status ` set (active_orders d (t_id t))"
    using r by (metis imageI)
  from ne np rs show ?thesis by (simp add: resync_row_status)
qed

lemma resync_row_not_billing: "t_status (resync_row d now t) \<noteq> Billing"
  by (simp add: resync_row_status)

lemma resync_row_free_iff:
  "t_status (resync_row d now t) \<noteq> Free \<longleftrightarrow> active_orders d (t_id t) \<noteq> []"
  by (simp add: resync_row_status)

lemma resync_row_props:
  "t_id (resync_row d now t) = t_id t \<and>
   (active_orders d (t_id t) = [] \<longrightarrow> t_status (resync_row d now t) = Free) \<and>
   ((\<exists>r \<in> set (active_orders d (t_id t)). o_status r = Pending \<or> o_status r = Preparing)
      \<longrightarrow> t_status (resync_row d now t) = Occupied) \<and>
   (active_orders d (t_id t) \<noteq> [] \<and>
    (\<forall>r \<in> set (active_orders d (t_id t)). o_status r = Ready \<or> o_status r = Served)
      \<longrightarrow> t_status (resync_row d now t) = Serving) \<and>
   customer_count (resync_row d now t) =
     (if t_status (resync_row d now t) \<noteq> Free \<and> sum_list (active_quantities d (t_id t)) \<noteq> 0
      then Some (sum_list (active_quantities d (t_id t))) else None) \<and>
   t_status (resync_row d now t) \<noteq> Billing"
  using resync_row_free[of d t now] resync_row_occupied[of _ d t now] resync_row_serving[of d t now]
    resync_row_not_billing[of d now t]
  by (simp only: resync_row_free_iff resync_row_count resync_row_idem) blast




section \<open>Cancel order (C7, C8)\<close>

lemma DELETE_order_tx_frame:
  "orders (DELETE_order_tx ord oid now d) = filter (\<lambda>r. o_id r \<noteq> oid) (orders d)"
  "order_items (DELETE_order_tx ord oid now d) = filter (\<lambda>i. order_id i \<noteq> oid) (order_items d)"
  "menu_items (DELETE_order_tx ord oid now d) = menu_items d"
  by (simp_all add: DELETE_order_tx_def Let_def update_table_frame)

lemma active_orders_cong:
  "orders d' = orders d \<Longrightarrow> active_orders d' tid = active_orders d tid"
  by (simp add: active_orders_def)

lemma DELETE_order_tx_active:
  "active_orders (DELETE_order_tx ord oid now d) tid =
     filter (\<lambda>r. table_id r = tid \<and> o_status r \<noteq> Paid) (filter (\<lambda>r. o_id r \<noteq> oid) (orders d))"
  by (simp add: active_orders_def DELETE_order_tx_frame)

lemma DELETE_order_tx_tables:
  "tables (DELETE_order_tx ord oid now d) =
     (if active_orders (DELETE_order_tx ord oid now d) (table_id ord) = []
      then map (\<lambda>t. if t_id t = table_id ord
                     then t\<lparr>t_status := Free, customer_count := None, t_updated_at := now\<rparr>
                     else t) (tables d)
      else tables d)"
  unfolding DELETE_order_tx_active
  by (simp add: DELETE_order_tx_def Let_def update_table_frame active_orders_def)

lemma DELETE_order_pending_eq:
  assumes "find (\<lambda>r. o_id r = oid) (orders d) = Some ord" and "o_status ord = Pending"
  shows "DELETE_order d now (Some oid) =
           (Inr ''Order cancelled successfully'', DELETE_order_tx ord oid now d)"
  using assms by (simp add: DELETE_order_def)

text \<open>
  Claim C7. Cancelling an order that is Pending succeeds; the order row and every line of
  the order are gone and all other orders and lines stay. If the owning table then has no
  non-Paid order, its row gets status Free and no customer count; if it has, the table rows
  are what they were.
\<close>

theorem DELETE_order_pending:
  assumes "find (\<lambda>r. o_id r = oid) (orders d) = Some ord" and "o_status ord = Pending"
  shows "fst (DELETE_order d now (Some oid)) = Inr ''Order cancelled successfully'' \<and>
         orders (snd (DELETE_order d now (Some oid))) = filter (\<lambda>r. o_id r \<noteq> oid) (orders d) \<and>
         order_items (snd (DELETE_order d now (Some oid))) =
           filter (\<lambda>i. order_id i \<noteq> oid) (order_items d) \<and>
         (active_orders (snd (DELETE_order d now (Some oid))) (table_id ord) = [] \<longrightarrow>
            tables (snd (DELETE_order d now (Some oid))) =
              map (\<lambda>t. if t_id t = table_id ord
                        then t\<lparr>t_status := Free, customer_count := None, t_updated_at := now\<rparr>
                        else t) (tables d)) \<and>
         (active_orders (snd (DELETE_order d now (Some oid))) (table_id ord) \<noteq> [] \<longrightarrow>
            tables (snd (DELETE_order d now (Some oid))) = tables d)"
  unfolding DELETE_order_pending_eq[OF assms]
  by (simp add: DELETE_order_tx_frame DELETE_order_tx_tables)

text \<open>
  The theorem at the cancellation of a sole Pending order (the table is freed) and of a
  Pending order beside a Ready one (the tables stay).
\<close>

theorem DELETE_order_pending_witness:
  "map_option o_status (find (\<lambda>r. o_id r = 1) (orders db_one_order)) = Some Pending \<and>
   active_orders (snd (DELETE_order db_one_order 9 (Some 1))) 1 = [] \<and>
   orders (snd (DELETE_order db_one_order 9 (Some 1))) = [] \<and>
   order_items (snd (DELETE_order db_one_order 9 (Some 1))) = [] \<and>
   map t_status (tables (snd (DELETE_order db_one_order 9 (Some 1)))) = [Free] \<and>
   map customer_count (tables (snd (DELETE_order db_one_order 9 (Some 1)))) = [None] \<and>
   map_option o_status (find (\<lambda>r. o_id r = 2) (orders db_mixed)) = Some Pending \<and>
   map o_id (active_orders (snd (DELETE_order db_mixed 9 (Some 2))) 1) = [1] \<and>
   tables (snd (DELETE_order db_mixed 9 (Some 2))) = tables db_mixed"
proof -
  have a: "find (\<lambda>r. o_id r = 1) (orders db_one_order) = Some (hd (orders db_one_order))"
    and b: "o_status (hd (orders db_one_order)) = Pending"
    and c: "find (\<lambda>r. o_id r = 2) (orders db_mixed) = Some (orders db_mixed ! 1)"
    and e: "o_status (orders db_mixed ! 1) = Pending"
    by code_simp+
  have f: "table_id (hd (orders db_one_order)) = 1" "table_id (orders db_mixed ! 1) = 1"
      "filter (\<lambda>r. o_id r \<noteq> 1) (orders db_one_order) = []"
      "filter (\<lambda>i. order_id i \<noteq> 1) (order_items db_one_order) = []"
      "map t_status (map (\<lambda>t. if t_id t = 1
                        then t\<lparr>t_status := Free, customer_count := None, t_updated_at := 9\<rparr>
                        else t) (tables db_one_order)) = [Free]"
      "map customer_count (map (\<lambda>t. if t_id t = 1
                        then t\<lparr>t_status := Free, customer_count := None, t_updated_at := 9\<rparr>
                        else t) (tables db_one_order)) = [None]"
    by code_simp+
  have g: "active_orders (snd (DELETE_order db_one_order 9 (Some 1))) 1 = []"
      "map o_id (active_orders (snd (DELETE_order db_mixed 9 (Some 2))) 1) = [1]"
    by code_simp+
  have g2: "active_orders (snd (DELETE_order db_mixed 9 (Some 2))) 1 \<noteq> []"
    using g(2) by auto
  show ?thesis
    using DELETE_order_pending[OF a b, of 9] DELETE_order_pending[OF c e, of 9] g g2 a b c e f
    by simp
qed

text \<open>
  Claim C8. Cancelling an order whose status is not Pending is answered 400 with the text
  \<open>Can only cancel pending orders\<close>, and cancelling an identifier no order has is answered
  404; in both cases the store is the one before the call.
\<close>

theorem DELETE_order_rejected:
  "(find (\<lambda>r. o_id r = oid) (orders d) = Some ord \<and> o_status ord \<noteq> Pending \<longrightarrow>
      DELETE_order d now (Some oid) = (Inl (InvalidInput ''Can only cancel pending orders''), d)) \<and>
   (find (\<lambda>r. o_id r = oid) (orders d) = None \<longrightarrow>
      DELETE_order d now (Some oid) = (Inl (NotFound ''Order not found''), d))"
  by (simp add: DELETE_order_def)

theorem DELETE_order_rejected_witness:
  "map_option o_status (find (\<lambda>r. o_id r = 1) (orders db_mixed)) = Some Ready \<and>
   DELETE_order db_mixed 9 (Some 1) = (Inl (InvalidInput ''Can only cancel pending orders''), db_mixed) \<and>
   find (\<lambda>r. o_id r = 7) (orders db_mixed) = None \<and>
   DELETE_order db_mixed 9 (Some 7) = (Inl (NotFound ''Order not found''), db_mixed)"
proof -
  have a: "find (\<lambda>r. o_id r = 1) (orders db_mixed) = Some (hd (orders db_mixed))"
    and b: "o_status (hd (orders db_mixed)) = Ready"
    and c: "find (\<lambda>r. o_id r = 7) (orders db_mixed) = None"
    by code_simp+
  show ?thesis
    using DELETE_order_rejected[of 1 db_mixed "hd (orders db_mixed)" 9]
      DELETE_order_rejected[of 7 db_mixed "hd (orders db_mixed)" 9] a b c
    by simp
qed

section \<open>Orders of a table (C10)\<close>

lemma filter_key_single:
  "distinct (map f xs) \<Longrightarrow> k \<in> set (map f xs) \<Longrightarrow> \<exists>x. filter (\<lambda>y. f y = k) xs = [x] \<and> f x = k"
proof (induction xs)
  case Nil
  then show ?case by simp
next
  case (Cons a xs)
  show ?case
  proof (cases "f a = k")
    case True
    then have "filter (\<lambda>y. f y = k) xs = []"
      using Cons.prems(1) by (auto simp: filter_empty_conv image_iff)
    with True show ?thesis by simp
  next
    case False
    then show ?thesis using Cons by auto
  qed
qed

lemma orderItems_query_lines:
  assumes "distinct (map m_id (menu_items d))"
    and "\<forall>i \<in> set (order_items d). menu_item_id i \<in> set (map m_id (menu_items d))"
  shows "map fst (orderItems_query d oid) = filter (\<lambda>i. order_id i = oid) (order_items d)
         \<and> (\<forall>l \<in> set (orderItems_query d oid). m_id (snd l) = menu_item_id (fst l))"
proof -
  have one: "\<exists>m. filter (\<lambda>mi. m_id mi = menu_item_id i) (menu_items d) = [m] \<and> m_id m = menu_item_id i"
    if "i \<in> set (order_items d)" for i
    using filter_key_single[OF assms(1), of "menu_item_id i"] assms(2) that by blast
  have gen: "set xs \<subseteq> set (order_items d) \<Longrightarrow>
      map fst (concat (map (\<lambda>oi. map (\<lambda>mi. (oi, mi))
                 (filter (\<lambda>mi. m_id mi = menu_item_id oi) (menu_items d))) xs)) = xs
      \<and> (\<forall>l \<in> set (concat (map (\<lambda>oi. map (\<lambda>mi. (oi, mi))
                 (filter (\<lambda>mi. m_id mi = menu_item_id oi) (menu_items d))) xs)).
            m_id (snd l) = menu_item_id (fst l))" for xs
  proof (induction xs)
    case Nil
    then show ?case by simp
  next
    case (Cons a xs)
    then obtain m where "filter (\<lambda>mi. m_id mi = menu_item_id a) (menu_items d) = [m]"
        "m_id m = menu_item_id a"
      using one[of a] by auto
    with Cons show ?case by simp
  qed
  show ?thesis
    unfolding orderItems_query_def using gen[of "filter (\<lambda>i. order_id i = oid) (order_items d)"]
    by auto
qed

text \<open>
  Claim C10. In a store that satisfies the schema's constraints, the order listing of a
  table answers with exactly the orders of that table whose status is not Paid, newest
  first, each with all the lines of the order, every line beside its menu item.
\<close>

theorem GET_table_orders_exact:
  assumes "wf_db d"
  shows "\<exists>rows. GET_table_orders d (Some tid) = Inr rows \<and>
           mset (map fst rows) =
             mset (filter (\<lambda>r. table_id r = tid \<and> o_status r \<noteq> Paid) (orders d)) \<and>
           sorted (rev (map (o_created_at \<circ> fst) rows)) \<and>
           (\<forall>row \<in> set rows.
              map fst (snd row) = filter (\<lambda>i. order_id i = o_id (fst row)) (order_items d) \<and>
              (\<forall>l \<in> set (snd row). m_id (snd l) = menu_item_id (fst l)))"
proof -
  let ?rows = "map (\<lambda>order. (order, orderItems_query d (o_id order)))
                 (rev (sort_key o_created_at (active_orders d tid)))"
  have mi: "distinct (map m_id (menu_items d))"
    and fk: "\<forall>i \<in> set (order_items d). menu_item_id i \<in> set (map m_id (menu_items d))"
    using assms by (simp_all add: wf_db_def)
  have r: "GET_table_orders d (Some tid) = Inr ?rows"
    by (simp add: GET_table_orders_def)
  have fsts: "map fst ?rows = rev (sort_key o_created_at (active_orders d tid))"
    by (simp add: comp_def)
  have m: "mset (map fst ?rows) =
             mset (filter (\<lambda>r. table_id r = tid \<and> o_status r \<noteq> Paid) (orders d))"
    unfolding fsts by (simp add: active_orders_def)
  have "map (o_created_at \<circ> fst) ?rows = rev (map o_created_at (sort_key o_created_at (active_orders d tid)))"
    by (simp add: comp_def rev_map)
  then have s: "sorted (rev (map (o_created_at \<circ> fst) ?rows))"
    by simp
  have l: "\<forall>row \<in> set ?rows.
              map fst (snd row) = filter (\<lambda>i. order_id i = o_id (fst row)) (order_items d) \<and>
              (\<forall>l \<in> set (snd row). m_id (snd l) = menu_item_id (fst l))"
    using orderItems_query_lines[OF mi fk] by auto
  from r m s l show ?thesis by blast
qed

text \<open>
  The theorem at the three-table state: table 1 has a Ready order and a later Pending order,
  table 3 a Paid order only.
\<close>

theorem GET_table_orders_exact_witness:
  "wf_db db_mixed \<and>
   map_sum id (map (\<lambda>row. (o_id (fst row), o_status (fst row), map (oi_id \<circ> fst) (snd row))))
     (GET_table_orders db_mixed (Some 1)) = Inr [(2, Pending, [2]), (1, Ready, [1])] \<and>
   GET_table_orders db_mixed (Some 3) = Inr []"
proof -
  have w: "wf_db db_mixed" by code_simp
  have v: "map_sum id (map (\<lambda>row. (o_id (fst row), o_status (fst row), map (oi_id \<circ> fst) (snd row))))
     (GET_table_orders db_mixed (Some 1)) = Inr [(2, Pending, [2]), (1, Ready, [1])]"
    by code_simp
  have e: "filter (\<lambda>r. table_id r = 3 \<and> o_status r \<noteq> Paid) (orders db_mixed) = []"
    by code_simp
  have "GET_table_orders db_mixed (Some 3) = Inr []"
    using GET_table_orders_exact[OF w, of 3] unfolding e by auto
  with w v show ?thesis by blast
qed

section \<open>Create order (C4, C5, C9)\<close>

lemma fold_max_bounds: "s \<le> fold max ids s \<and> (\<forall>k \<in> set ids. k \<le> fold max ids (s::nat))"
proof (induction ids arbitrary: s)
  case Nil
  then show ?case by simp
next
  case (Cons a ids)
  have "max a s \<le> fold max ids (max a s)" and "\<forall>k \<in> set ids. k \<le> fold max ids (max a s)"
    using Cons.IH[of "max a s"] by simp_all
  then show ?case by auto
qed

lemma next_rowid_above: "k \<in> set ids \<Longrightarrow> k < next_rowid s ids"
  using fold_max_bounds[of s ids] by (auto simp: next_rowid_def less_Suc_eq_le)

lemma next_rowid_fresh: "next_rowid s ids \<notin> set ids"
  using next_rowid_above[of "next_rowid s ids" ids s] by auto

lemma find_exists: "(\<exists>x. find P xs = Some x) \<longleftrightarrow> (\<exists>x \<in> set xs. P x)"
  by (induction xs) auto

lemma find_key_exists: "(\<exists>x. find (\<lambda>y. f y = k) xs = Some x) \<longleftrightarrow> k \<in> set (map f xs)"
  unfolding find_exists by auto

lemma find_key_None: "find (\<lambda>y. f y = k) xs = None \<longleftrightarrow> k \<notin> set (map f xs)"
  using find_key_exists[of f k xs] by (cases "find (\<lambda>y. f y = k) xs") auto

lemma find_Some_holds: "find P xs = Some x \<Longrightarrow> P x \<and> x \<in> set xs"
  by (induction xs) (auto split: if_splits)

text \<open>What one line of the request makes of one priced line.\<close>

lemma price_items_Inr:
  "price_items num d its tot acc = Inr (tot', lines') \<Longrightarrow>
   \<exists>new. lines' = acc @ new \<and> tot' = foldl (+) tot (map ld_subtotal new) \<and>
         list_all2 (\<lambda>it l. ri_id it \<noteq> 0 \<and> 0 < ri_quantity it \<and>
                     (\<exists>m. find (\<lambda>m. m_id m = ri_id it) (menu_items d) = Some m \<and>
                          menuItemId l = ri_id it \<and> ld_quantity l = ri_quantity it \<and>
                          unitPrice l = price m \<and>
                          ld_subtotal l = price m * num (ri_quantity it)))
           its new"
proof (induction its arbitrary: tot acc)
  case Nil
  then show ?case by simp
next
  case (Cons it its)
  from Cons.prems have v: "ri_id it \<noteq> 0" "0 < ri_quantity it"
    by (auto split: if_splits)
  from Cons.prems v obtain m where m: "find (\<lambda>m. m_id m = ri_id it) (menu_items d) = Some m"
    by (cases "find (\<lambda>m. m_id m = ri_id it) (menu_items d)") auto
  let ?l = "\<lparr>menuItemId = ri_id it, ld_quantity = ri_quantity it, unitPrice = price m,
             ld_subtotal = price m * num (ri_quantity it)\<rparr>"
  have "price_items num d its (tot + price m * num (ri_quantity it)) (acc @ [?l]) = Inr (tot', lines')"
    using Cons.prems v m by (simp add: Let_def)
  from Cons.IH[OF this] obtain new where new:
    "lines' = (acc @ [?l]) @ new"
    "tot' = foldl (+) (tot + price m * num (ri_quantity it)) (map ld_subtotal new)"
    "list_all2 (\<lambda>it l. ri_id it \<noteq> 0 \<and> 0 < ri_quantity it \<and>
                     (\<exists>m. find (\<lambda>m. m_id m = ri_id it) (menu_items d) = Some m \<and>
                          menuItemId l = ri_id it \<and> ld_quantity l = ri_quantity it \<and>
                          unitPrice l = price m \<and>
                          ld_subtotal l = price m * num (ri_quantity it)))
           its new"
    by blast
  show ?case
    apply (rule exI[of _ "?l # new"])
    using new v m by simp
qed

lemma price_items_subtotals:
  "price_items num d its tot acc = Inr (tot', lines') \<Longrightarrow>
   map ld_subtotal lines' = map ld_subtotal acc @ line_subtotals num d its"
proof (induction its arbitrary: tot acc)
  case Nil
  then show ?case by (simp add: line_subtotals_def)
next
  case (Cons it its)
  from Cons.prems have v: "ri_id it \<noteq> 0" "0 < ri_quantity it"
    by (auto split: if_splits)
  from Cons.prems v obtain m where m: "find (\<lambda>m. m_id m = ri_id it) (menu_items d) = Some m"
    by (cases "find (\<lambda>m. m_id m = ri_id it) (menu_items d)") auto
  let ?l = "\<lparr>menuItemId = ri_id it, ld_quantity = ri_quantity it, unitPrice = price m,
             ld_subtotal = price m * num (ri_quantity it)\<rparr>"
  have "price_items num d its (tot + price m * num (ri_quantity it)) (acc @ [?l]) = Inr (tot', lines')"
    using Cons.prems v m by (simp add: Let_def)
  from Cons.IH[OF this] show ?case using m by (simp add: line_subtotals_def)
qed

lemma price_items_ok:
  "\<forall>it \<in> set its. ri_id it \<noteq> 0 \<and> 0 < ri_quantity it \<and> ri_id it \<in> set (map m_id (menu_items d))
   \<Longrightarrow> \<exists>r. price_items num d its tot acc = Inr r"
proof (induction its arbitrary: tot acc)
  case Nil
  then show ?case by simp
next
  case (Cons it its)
  then obtain m where "find (\<lambda>m. m_id m = ri_id it) (menu_items d) = Some m"
    using find_key_exists[of m_id "ri_id it" "menu_items d"] by auto
  with Cons show ?case by (simp add: Let_def)
qed

lemma price_items_missing:
  "\<exists>it \<in> set its. ri_id it \<notin> set (map m_id (menu_items d))
   \<Longrightarrow> \<exists>e. price_items num d its tot acc = Inl e"
proof (induction its arbitrary: tot acc)
  case Nil
  then show ?case by simp
next
  case (Cons it its)
  show ?case
  proof (cases "find (\<lambda>m. m_id m = ri_id it) (menu_items d)")
    case None
    then show ?thesis by simp
  next
    case (Some m)
    then have "ri_id it \<in> set (map m_id (menu_items d))"
      using find_key_exists[of m_id "ri_id it" "menu_items d"] by blast
    with Cons.prems have "\<exists>it \<in> set its. ri_id it \<notin> set (map m_id (menu_items d))" by auto
    from Cons.IH[OF this] show ?thesis using Some by (simp add: Let_def)
  qed
qed

lemma price_items_first_missing:
  assumes "\<forall>it \<in> set pre. ri_id it \<noteq> 0 \<and> 0 < ri_quantity it \<and> ri_id it \<in> set (map m_id (menu_items d))"
    and "ri_id bad \<noteq> 0" and "0 < ri_quantity bad" and "ri_id bad \<notin> set (map m_id (menu_items d))"
  shows "price_items num d (pre @ bad # rest) tot acc =
           Inl (NotFound (''Menu item with ID '' @ string_of_nat (ri_id bad) @ '' not found''))"
  using assms(1)
proof (induction pre arbitrary: tot acc)
  case Nil
  have "find (\<lambda>m. m_id m = ri_id bad) (menu_items d) = None"
    using assms(4) find_key_None[of m_id "ri_id bad" "menu_items d"] by blast
  then show ?case using assms(2,3) by simp
next
  case (Cons it pre)
  then obtain m where "find (\<lambda>m. m_id m = ri_id it) (menu_items d) = Some m"
    using find_key_exists[of m_id "ri_id it" "menu_items d"] by auto
  with Cons show ?case by (simp add: Let_def)
qed

lemma price_items_first_invalid:
  assumes "\<forall>it \<in> set pre. ri_id it \<noteq> 0 \<and> 0 < ri_quantity it \<and> ri_id it \<in> set (map m_id (menu_items d))"
    and "ri_id bad = 0 \<or> ri_quantity bad \<le> 0"
  shows "price_items num d (pre @ bad # rest) tot acc = Inl (InvalidInput ''Invalid item data'')"
  using assms(1)
proof (induction pre arbitrary: tot acc)
  case Nil
  then show ?case using assms(2) by auto
next
  case (Cons it pre)
  then obtain m where "find (\<lambda>m. m_id m = ri_id it) (menu_items d) = Some m"
    using find_key_exists[of m_id "ri_id it" "menu_items d"] by auto
  with Cons show ?case by (simp add: Let_def)
qed

lemma price_items2_Inr:
  "price_items2 num d its tot acc = Inr (tot', lines') \<Longrightarrow>
   \<exists>new. lines' = acc @ new \<and> length new = length its \<and>
         (\<forall>l \<in> set new. menuItemId l \<in> set (map m_id (menu_items d)))"
proof (induction its arbitrary: tot acc)
  case Nil
  then show ?case by simp
next
  case (Cons it its)
  from Cons.prems obtain m where m: "find (\<lambda>m. m_id m = ri_id it) (menu_items d) = Some m"
    by (cases "find (\<lambda>m. m_id m = ri_id it) (menu_items d)") auto
  let ?l = "\<lparr>menuItemId = ri_id it, ld_quantity = ri_quantity it, unitPrice = price m,
             ld_subtotal = price m * num (ri_quantity it)\<rparr>"
  have "price_items2 num d its (tot + price m * num (ri_quantity it)) (acc @ [?l]) = Inr (tot', lines')"
    using Cons.prems m by (simp add: Let_def)
  from Cons.IH[OF this] obtain new where new:
    "lines' = (acc @ [?l]) @ new" "length new = length its"
    "\<forall>l \<in> set new. menuItemId l \<in> set (map m_id (menu_items d))"
    by blast
  have "ri_id it \<in> set (map m_id (menu_items d))"
    using m find_key_exists[of m_id "ri_id it" "menu_items d"] by blast
  then show ?case
    apply (intro exI[of _ "?l # new"])
    using new by simp
qed

lemma price_items2_missing:
  "\<exists>it \<in> set its. ri_id it \<notin> set (map m_id (menu_items d))
   \<Longrightarrow> \<exists>e. price_items2 num d its tot acc = Inl e"
proof (induction its arbitrary: tot acc)
  case Nil
  then show ?case by simp
next
  case (Cons it its)
  show ?case
  proof (cases "find (\<lambda>m. m_id m = ri_id it) (menu_items d)")
    case None
    then show ?thesis by simp
  next
    case (Some m)
    then have "ri_id it \<in> set (map m_id (menu_items d))"
      using find_key_exists[of m_id "ri_id it" "menu_items d"] by blast
    with Cons.prems have "\<exists>it \<in> set its. ri_id it \<notin> set (map m_id (menu_items d))" by auto
    from Cons.IH[OF this] show ?thesis using Some by (simp add: Let_def)
  qed
qed

lemma insert_order_Some:
  assumes "insert_order nan tid tot sid now d = Some (oid, d1)"
  shows "oid = next_rowid (seq_orders d) (map o_id (orders d)) \<and>
         orders d1 = orders d @ [\<lparr>o_id = oid, table_id = tid, total_amount = tot, o_status = Pending,
                                  staff_id = sid, o_created_at = now, o_updated_at = now\<rparr>] \<and>
         tables d1 = tables d \<and> menu_items d1 = menu_items d \<and> order_items d1 = order_items d \<and>
         staff d1 = staff d \<and> tid \<in> set (map t_id (tables d)) \<and>
         (case sid of None \<Rightarrow> True | Some s \<Rightarrow> s \<in> set (staff d)) \<and> \<not> nan tot"
  using assms by (auto simp: insert_order_def Let_def split: if_splits option.splits)

lemma insert_order_ok:
  assumes "tid \<in> set (map t_id (tables d))" and "case sid of None \<Rightarrow> True | Some s \<Rightarrow> s \<in> set (staff d)"
    and "\<not> nan tot"
  shows "\<exists>r. insert_order nan tid tot sid now d = Some r"
  using assms by (auto simp: insert_order_def Let_def split: option.splits)

lemma insert_order_item_Some:
  assumes "insert_order_item nan oid l now d = Some d'"
  shows "\<exists>row. order_items d' = order_items d @ [row] \<and> line_row oid now l row \<and>
               oi_id row = next_rowid (seq_order_items d) (map oi_id (order_items d)) \<and>
               orders d' = orders d \<and> tables d' = tables d \<and> menu_items d' = menu_items d \<and>
               staff d' = staff d \<and> menuItemId l \<in> set (map m_id (menu_items d))"
  using assms by (auto simp: insert_order_item_def Let_def line_row_def split: if_splits)

lemma insert_order_items_Some:
  "insert_order_items nan oid ls now d = Some d' \<Longrightarrow>
   \<exists>rows. order_items d' = order_items d @ rows \<and> list_all2 (line_row oid now) ls rows \<and>
          distinct (map oi_id rows) \<and> (\<forall>row \<in> set rows. oi_id row \<notin> set (map oi_id (order_items d))) \<and>
          orders d' = orders d \<and> tables d' = tables d \<and> menu_items d' = menu_items d \<and>
          staff d' = staff d \<and> (\<forall>l \<in> set ls. menuItemId l \<in> set (map m_id (menu_items d)))"
proof (induction ls arbitrary: d)
  case Nil
  then show ?case by simp
next
  case (Cons l ls)
  from Cons.prems obtain d1 where d1: "insert_order_item nan oid l now d = Some d1"
    and rest: "insert_order_items nan oid ls now d1 = Some d'"
    by (cases "insert_order_item nan oid l now d") auto
  from insert_order_item_Some[OF d1] obtain row where row:
    "order_items d1 = order_items d @ [row]" "line_row oid now l row"
    "oi_id row = next_rowid (seq_order_items d) (map oi_id (order_items d))"
    "orders d1 = orders d" "tables d1 = tables d" "menu_items d1 = menu_items d" "staff d1 = staff d"
    "menuItemId l \<in> set (map m_id (menu_items d))"
    by blast
  from Cons.IH[OF rest] obtain rows where rows:
    "order_items d' = order_items d1 @ rows" "list_all2 (line_row oid now) ls rows"
    "distinct (map oi_id rows)" "\<forall>r \<in> set rows. oi_id r \<notin> set (map oi_id (order_items d1))"
    "orders d' = orders d1" "tables d' = tables d1" "menu_items d' = menu_items d1"
    "staff d' = staff d1" "\<forall>l \<in> set ls. menuItemId l \<in> set (map m_id (menu_items d1))"
    by blast
  have fresh: "oi_id row \<notin> set (map oi_id (order_items d))"
    unfolding row(3) by (rule next_rowid_fresh)
  show ?case
    apply (rule exI[of _ "row # rows"])
    using row rows fresh by auto
qed

lemma insert_order_items_ok:
  "oid \<in> set (map o_id (orders d)) \<Longrightarrow>
   \<forall>l \<in> set ls. menuItemId l \<in> set (map m_id (menu_items d)) \<and>
                \<not> nan (unitPrice l) \<and> \<not> nan (ld_subtotal l) \<Longrightarrow>
   \<exists>d'. insert_order_items nan oid ls now d = Some d'"
proof (induction ls arbitrary: d)
  case Nil
  then show ?case by simp
next
  case (Cons l ls)
  then obtain d1 where d1: "insert_order_item nan oid l now d = Some d1"
    by (auto simp: insert_order_item_def Let_def)
  from insert_order_item_Some[OF d1] have "orders d1 = orders d" "menu_items d1 = menu_items d"
    by auto
  with Cons.IH[of d1] Cons.prems d1 show ?case by auto
qed

lemma create_order_tx_Some:
  assumes "create_order_tx nan tid tot sid ls now d = Some (oid, d')"
  shows "\<exists>rows. oid = next_rowid (seq_orders d) (map o_id (orders d)) \<and>
          orders d' = orders d @ [\<lparr>o_id = oid, table_id = tid, total_amount = tot, o_status = Pending,
                                   staff_id = sid, o_created_at = now, o_updated_at = now\<rparr>] \<and>
          order_items d' = order_items d @ rows \<and> list_all2 (line_row oid now) ls rows \<and>
          distinct (map oi_id rows) \<and> (\<forall>row \<in> set rows. oi_id row \<notin> set (map oi_id (order_items d))) \<and>
          tables d' = map (\<lambda>t. if t_id t = tid then t\<lparr>t_status := Occupied, t_updated_at := now\<rparr> else t)
                        (tables d) \<and>
          menu_items d' = menu_items d \<and> staff d' = staff d \<and>
          tid \<in> set (map t_id (tables d)) \<and>
          (case sid of None \<Rightarrow> True | Some s \<Rightarrow> s \<in> set (staff d)) \<and>
          (\<forall>l \<in> set ls. menuItemId l \<in> set (map m_id (menu_items d))) \<and> \<not> nan tot"
proof -
  from assms obtain d1 d2 where a: "insert_order nan tid tot sid now d = Some (oid, d1)"
    and b: "insert_order_items nan oid ls now d1 = Some d2"
    and c: "d' = update_table tid (\<lambda>t. t\<lparr>t_status := Occupied\<rparr>) now d2"
    by (auto simp: create_order_tx_def split: option.splits)
  note A = insert_order_Some[OF a]
  from insert_order_items_Some[OF b] obtain rows where rows:
    "order_items d2 = order_items d1 @ rows" "list_all2 (line_row oid now) ls rows"
    "distinct (map oi_id rows)" "\<forall>row \<in> set rows. oi_id row \<notin> set (map oi_id (order_items d1))"
    "orders d2 = orders d1" "tables d2 = tables d1" "menu_items d2 = menu_items d1"
    "staff d2 = staff d1" "\<forall>l \<in> set ls. menuItemId l \<in> set (map m_id (menu_items d1))"
    by blast
  show ?thesis
    apply (rule exI[of _ rows])
    using A rows c by (simp add: update_table_frame)
qed

lemma create_order_tx_ok:
  assumes "tid \<in> set (map t_id (tables d))" and "case sid of None \<Rightarrow> True | Some s \<Rightarrow> s \<in> set (staff d)"
    and "\<forall>l \<in> set ls. menuItemId l \<in> set (map m_id (menu_items d)) \<and>
                      \<not> nan (unitPrice l) \<and> \<not> nan (ld_subtotal l)"
    and "\<not> nan tot"
  shows "\<exists>r. create_order_tx nan tid tot sid ls now d = Some r"
proof -
  from insert_order_ok[where nan = nan and tot = tot and now = now, OF assms(1,2,4)] obtain oid d1
    where a: "insert_order nan tid tot sid now d = Some (oid, d1)" by auto
  note A = insert_order_Some[OF a]
  have "oid \<in> set (map o_id (orders d1))" using A by simp
  moreover have "\<forall>l \<in> set ls. menuItemId l \<in> set (map m_id (menu_items d1)) \<and>
                      \<not> nan (unitPrice l) \<and> \<not> nan (ld_subtotal l)"
    using A assms(3) by simp
  ultimately obtain d2 where "insert_order_items nan oid ls now d1 = Some d2"
    using insert_order_items_ok by blast
  with a show ?thesis by (simp add: create_order_tx_def)
qed

lemma find_append_last:
  "\<forall>y \<in> set xs. \<not> P y \<Longrightarrow> P x \<Longrightarrow> find P (xs @ [x]) = Some x"
  by (induction xs) auto

lemma list_all2_right_ex:
  "list_all2 P xs ys \<Longrightarrow> y \<in> set ys \<Longrightarrow> \<exists>x \<in> set xs. P x y"
  by (induction xs ys rule: list_all2_induct) auto

lemma list_all2_compose:
  "list_all2 P xs ys \<Longrightarrow> list_all2 Q ys zs \<Longrightarrow> list_all2 (\<lambda>x z. \<exists>y. P x y \<and> Q y z) xs zs"
  by (induction xs ys arbitrary: zs rule: list_all2_induct) (auto simp: list_all2_Cons1)

lemma list_all2_line_row_fields:
  "list_all2 (line_row oid now) ls rows \<Longrightarrow>
   map subtotal rows = map ld_subtotal ls \<and> (\<forall>row \<in> set rows. order_id row = oid) \<and>
   map menu_item_id rows = map menuItemId ls"
  by (induction ls rows rule: list_all2_induct) (auto simp: line_row_def)

lemma PUT_menu_frame:
  "orders (snd (PUT_menu d now ident name newPrice avail)) = orders d"
  "order_items (snd (PUT_menu d now ident name newPrice avail)) = order_items d"
  "tables (snd (PUT_menu d now ident name newPrice avail)) = tables d"
  "staff (snd (PUT_menu d now ident name newPrice avail)) = staff d"
  "map m_id (menu_items (snd (PUT_menu d now ident name newPrice avail))) = map m_id (menu_items d)"
  by (auto simp: PUT_menu_def Let_def split: option.splits)

lemma POST_orders_success:
  assumes "tableId body \<noteq> 0" and "items body \<noteq> []"
    and "tableId body \<in> set (map t_id (tables d))"
    and "price_items num d (items body) 0 [] = Inr (tot, ls)"
    and "create_order_tx nan (tableId body) tot (if staffId body = 0 then None else Some (staffId body))
           ls now d = Some (oid, d')"
  shows "POST_orders num nan d now body = (Inr (fetch_order d' oid), d')"
proof -
  have "find (\<lambda>t. t_id t = tableId body) (tables d) \<noteq> None"
    using assms(3) find_key_None[of t_id "tableId body" "tables d"] by blast
  then show ?thesis using assms by (simp add: POST_orders_def)
qed



lemma POST_orders_cases:
  "(\<exists>e. POST_orders num nan d now body = (Inl e, d)) \<or>
   (\<exists>oid tot ls d'. POST_orders num nan d now body = (Inr (fetch_order d' oid), d') \<and>
      create_order_tx nan (tableId body) tot (if staffId body = 0 then None else Some (staffId body))
        ls now d = Some (oid, d') \<and>
      length ls = length (items body))"
proof (cases "price_items num d (items body) 0 []")
  case (Inl e)
  then show ?thesis by (simp add: POST_orders_def)
next
  case (Inr r)
  obtain tot ls where r: "r = (tot, ls)" by (cases r)
  from price_items_Inr[OF Inr[unfolded r]] have len: "length ls = length (items body)"
    by (auto dest: list_all2_lengthD)
  show ?thesis
    using Inr r len
    by (cases "create_order_tx nan (tableId body) tot
                 (if staffId body = 0 then None else Some (staffId body)) ls now d")
       (auto simp: POST_orders_def)
qed

lemma POST_orders2_cases:
  "(\<exists>e. POST_orders2 num nan d now body = (Inl e, d)) \<or>
   (\<exists>oid tot ls d'. POST_orders2 num nan d now body = (Inr (oid, tot), d') \<and>
      create_order_tx nan (tableId body) tot None ls now d = Some (oid, d') \<and>
      length ls = length (items body))"
proof (cases "price_items2 num d (items body) 0 []")
  case (Inl e)
  then show ?thesis by (simp add: POST_orders2_def)
next
  case (Inr r)
  obtain tot ls where r: "r = (tot, ls)" by (cases r)
  from price_items2_Inr[OF Inr[unfolded r]] have len: "length ls = length (items body)"
    by auto
  show ?thesis
    using Inr r len
    by (cases "create_order_tx nan (tableId body) tot None ls now d")
       (auto simp: POST_orders2_def)
qed

lemma create_order_tx_whole:
  assumes "create_order_tx nan tid tot sid ls now d = Some (oid, d')"
  shows "\<exists>ord rows. orders d' = orders d @ [ord] \<and> o_status ord = Pending \<and>
           order_items d' = order_items d @ rows \<and> length rows = length ls \<and>
           (\<forall>row \<in> set rows. order_id row = o_id ord)"
proof -
  from create_order_tx_Some[OF assms] obtain rows where R:
    "orders d' = orders d @ [\<lparr>o_id = oid, table_id = tid, total_amount = tot, o_status = Pending,
                                   staff_id = sid, o_created_at = now, o_updated_at = now\<rparr>]"
    "order_items d' = order_items d @ rows" "list_all2 (line_row oid now) ls rows"
    by blast
  have "length rows = length ls" using R(3) by (auto dest: list_all2_lengthD)
  moreover have "\<forall>row \<in> set rows. order_id row = oid"
    using list_all2_line_row_fields[OF R(3)] by simp
  ultimately show ?thesis using R(1,2) by auto
qed

lemma POST_orders_missing_item:
  assumes "\<exists>it \<in> set (items body). ri_id it \<notin> set (map m_id (menu_items d))"
  shows "\<exists>e. POST_orders num nan d now body = (Inl e, d)"
proof -
  obtain e where "price_items num d (items body) 0 [] = Inl e"
    using price_items_missing[OF assms] by blast
  then show ?thesis by (simp add: POST_orders_def)
qed

lemma POST_orders2_missing_item:
  assumes "\<exists>it \<in> set (items body). ri_id it \<notin> set (map m_id (menu_items d))"
  shows "\<exists>e. POST_orders2 num nan d now body = (Inl e, d)"
proof -
  obtain e where "price_items2 num d (items body) 0 [] = Inl e"
    using price_items2_missing[OF assms] by blast
  then show ?thesis by (simp add: POST_orders2_def)
qed

lemma POST_orders_first_missing:
  assumes "tableId body \<noteq> 0" and "items body = pre @ bad # rest"
    and "\<forall>it \<in> set pre. ri_id it \<noteq> 0 \<and> 0 < ri_quantity it \<and> ri_id it \<in> set (map m_id (menu_items d))"
    and "ri_id bad \<noteq> 0" and "0 < ri_quantity bad" and "ri_id bad \<notin> set (map m_id (menu_items d))"
  shows "\<exists>msg. POST_orders num nan d now body = (Inl (NotFound msg), d)"
  using assms(1,2) price_items_first_missing[OF assms(3-6), where num = num and rest = rest and tot = 0 and acc = "[]"]
  by (simp add: POST_orders_def)

lemma POST_orders_first_invalid:
  assumes "tableId body \<in> set (map t_id (tables d))" and "items body = pre @ bad # rest"
    and "\<forall>it \<in> set pre. ri_id it \<noteq> 0 \<and> 0 < ri_quantity it \<and> ri_id it \<in> set (map m_id (menu_items d))"
    and "ri_id bad = 0 \<or> ri_quantity bad \<le> 0"
  shows "POST_orders num nan d now body = (Inl (InvalidInput ''Invalid item data''), d)
         \<or> POST_orders num nan d now body = (Inl (InvalidInput ''Table ID and items array are required''), d)"
proof -
  have "find (\<lambda>t. t_id t = tableId body) (tables d) \<noteq> None"
    using assms(1) find_key_None[of t_id "tableId body" "tables d"] by blast
  then show ?thesis
    using assms(2) price_items_first_invalid[OF assms(3,4), where num = num and rest = rest and tot = 0 and acc = "[]"]
    by (auto simp: POST_orders_def)
qed

text \<open>
  Claim C5, as amended. A create request that names a menu item the store does not have
  fails in both create handlers, and the store is the one before the call. In
  \<open>POST /api/orders\<close> the failure is NotFound when the table identifier is present and no
  line up to the first missing item lacks an identifier or has a quantity of zero or less;
  for an existing table it is InvalidInput when the first line that is not in order lacks
  an identifier or has such a quantity, whatever lines follow it.
  Whatever the request, each create handler either fails and leaves the store as it was, or
  adds one Pending order row and, for that order, as many line rows as the request has lines.
\<close>

theorem create_order_all_or_nothing:
  "((\<exists>it \<in> set (items body). ri_id it \<notin> set (map m_id (menu_items d))) \<longrightarrow>
      (\<exists>e. POST_orders num nan d now body = (Inl e, d)) \<and> (\<exists>e. POST_orders2 num nan d now body = (Inl e, d))) \<and>
   (tableId body \<noteq> 0 \<and> items body = pre @ bad # rest \<and>
    (\<forall>it \<in> set pre. ri_id it \<noteq> 0 \<and> 0 < ri_quantity it \<and> ri_id it \<in> set (map m_id (menu_items d))) \<and>
    ri_id bad \<noteq> 0 \<and> 0 < ri_quantity bad \<and> ri_id bad \<notin> set (map m_id (menu_items d)) \<longrightarrow>
      (\<exists>msg. POST_orders num nan d now body = (Inl (NotFound msg), d))) \<and>
   (tableId body \<in> set (map t_id (tables d)) \<and> items body = pre @ bad # rest \<and>
    (\<forall>it \<in> set pre. ri_id it \<noteq> 0 \<and> 0 < ri_quantity it \<and> ri_id it \<in> set (map m_id (menu_items d))) \<and>
    (ri_id bad = 0 \<or> ri_quantity bad \<le> 0) \<longrightarrow>
      (\<exists>msg. POST_orders num nan d now body = (Inl (InvalidInput msg), d))) \<and>
   ((\<exists>e. POST_orders num nan d now body = (Inl e, d)) \<or>
    (\<exists>r ord rows. fst (POST_orders num nan d now body) = Inr r \<and>
       orders (snd (POST_orders num nan d now body)) = orders d @ [ord] \<and> o_status ord = Pending \<and>
       order_items (snd (POST_orders num nan d now body)) = order_items d @ rows \<and>
       length rows = length (items body) \<and> (\<forall>row \<in> set rows. order_id row = o_id ord))) \<and>
   ((\<exists>e. POST_orders2 num nan d now body = (Inl e, d)) \<or>
    (\<exists>r ord rows. fst (POST_orders2 num nan d now body) = Inr r \<and>
       orders (snd (POST_orders2 num nan d now body)) = orders d @ [ord] \<and> o_status ord = Pending \<and>
       order_items (snd (POST_orders2 num nan d now body)) = order_items d @ rows \<and>
       length rows = length (items body) \<and> (\<forall>row \<in> set rows. order_id row = o_id ord)))"
proof (intro conjI impI)
  assume "\<exists>it \<in> set (items body). ri_id it \<notin> set (map m_id (menu_items d))"
  then show "\<exists>e. POST_orders num nan d now body = (Inl e, d)" by (rule POST_orders_missing_item)
next
  assume "\<exists>it \<in> set (items body). ri_id it \<notin> set (map m_id (menu_items d))"
  then show "\<exists>e. POST_orders2 num nan d now body = (Inl e, d)" by (rule POST_orders2_missing_item)
next
  assume "tableId body \<noteq> 0 \<and> items body = pre @ bad # rest \<and>
    (\<forall>it \<in> set pre. ri_id it \<noteq> 0 \<and> 0 < ri_quantity it \<and> ri_id it \<in> set (map m_id (menu_items d))) \<and>
    ri_id bad \<noteq> 0 \<and> 0 < ri_quantity bad \<and> ri_id bad \<notin> set (map m_id (menu_items d))"
  then show "\<exists>msg. POST_orders num nan d now body = (Inl (NotFound msg), d)"
    using POST_orders_first_missing[where body = body and pre = pre and bad = bad and rest = rest and d = d and now = now and num = num and nan = nan] by blast
next
  assume "tableId body \<in> set (map t_id (tables d)) \<and> items body = pre @ bad # rest \<and>
    (\<forall>it \<in> set pre. ri_id it \<noteq> 0 \<and> 0 < ri_quantity it \<and> ri_id it \<in> set (map m_id (menu_items d))) \<and>
    (ri_id bad = 0 \<or> ri_quantity bad \<le> 0)"
  then show "\<exists>msg. POST_orders num nan d now body = (Inl (InvalidInput msg), d)"
    using POST_orders_first_invalid[where body = body and pre = pre and bad = bad and rest = rest and d = d and now = now and num = num and nan = nan] by blast
next
  show "(\<exists>e. POST_orders num nan d now body = (Inl e, d)) \<or>
    (\<exists>r ord rows. fst (POST_orders num nan d now body) = Inr r \<and>
       orders (snd (POST_orders num nan d now body)) = orders d @ [ord] \<and> o_status ord = Pending \<and>
       order_items (snd (POST_orders num nan d now body)) = order_items d @ rows \<and>
       length rows = length (items body) \<and> (\<forall>row \<in> set rows. order_id row = o_id ord))"
  proof (rule disjE[OF POST_orders_cases[of num nan d now body]])
    assume "\<exists>e. POST_orders num nan d now body = (Inl e, d)"
    then show ?thesis by blast
  next
    assume "\<exists>oid tot ls d'. POST_orders num nan d now body = (Inr (fetch_order d' oid), d') \<and>
      create_order_tx nan (tableId body) tot (if staffId body = 0 then None else Some (staffId body))
        ls now d = Some (oid, d') \<and> length ls = length (items body)"
    then obtain oid tot ls d' where a: "POST_orders num nan d now body = (Inr (fetch_order d' oid), d')"
      and b: "create_order_tx nan (tableId body) tot (if staffId body = 0 then None else Some (staffId body))
        ls now d = Some (oid, d')" and c: "length ls = length (items body)"
      by blast
    from create_order_tx_whole[OF b] c a show ?thesis by auto
  qed
next
  show "(\<exists>e. POST_orders2 num nan d now body = (Inl e, d)) \<or>
    (\<exists>r ord rows. fst (POST_orders2 num nan d now body) = Inr r \<and>
       orders (snd (POST_orders2 num nan d now body)) = orders d @ [ord] \<and> o_status ord = Pending \<and>
       order_items (snd (POST_orders2 num nan d now body)) = order_items d @ rows \<and>
       length rows = length (items body) \<and> (\<forall>row \<in> set rows. order_id row = o_id ord))"
  proof (rule disjE[OF POST_orders2_cases[of num nan d now body]])
    assume "\<exists>e. POST_orders2 num nan d now body = (Inl e, d)"
    then show ?thesis by blast
  next
    assume "\<exists>oid tot ls d'. POST_orders2 num nan d now body = (Inr (oid, tot), d') \<and>
      create_order_tx nan (tableId body) tot None ls now d = Some (oid, d') \<and>
      length ls = length (items body)"
    then obtain oid tot ls d' where a: "POST_orders2 num nan d now body = (Inr (oid, tot), d')"
      and b: "create_order_tx nan (tableId body) tot None ls now d = Some (oid, d')"
      and c: "length ls = length (items body)"
      by blast
    from create_order_tx_whole[OF b] c a show ?thesis by auto
  qed
qed

text \<open>
  The theorem at a request whose second line names menu item 999, which the seed does not
  have: 404 from the first handler, an error from the second, the seed untouched.
\<close>

theorem create_order_all_or_nothing_witness:
  "items one_missing = [\<lparr>ri_id = 1, ri_quantity = 1\<rparr>] @ \<lparr>ri_id = 999, ri_quantity = 1\<rparr> # [] \<and>
   999 \<notin> set (map m_id (menu_items db_seed)) \<and>
   POST_orders of_int (\<lambda>_. False) db_seed 7 one_missing
     = (Inl (NotFound ''Menu item with ID 999 not found''), db_seed) \<and>
   snd (POST_orders2 of_int (\<lambda>_. False) db_seed 7 one_missing) = db_seed \<and>
   orders (snd (POST_orders of_int (\<lambda>_. False) db_seed 7 two_lines)) = orders db_seed @ [hd (orders db_one_order)] \<and>
   map order_id (order_items (snd (POST_orders of_int (\<lambda>_. False) db_seed 7 two_lines))) = [1, 1]"
proof -
  have h: "\<exists>it \<in> set (items one_missing). ri_id it \<notin> set (map m_id (menu_items db_seed))"
    by code_simp
  have v: "items one_missing = [\<lparr>ri_id = 1, ri_quantity = 1\<rparr>] @ \<lparr>ri_id = 999, ri_quantity = 1\<rparr> # []"
     "999 \<notin> set (map m_id (menu_items db_seed))"
     "POST_orders of_int (\<lambda>_. False) db_seed 7 one_missing
       = (Inl (NotFound ''Menu item with ID 999 not found''), db_seed)"
     "orders (snd (POST_orders of_int (\<lambda>_. False) db_seed 7 two_lines)) = orders db_seed @ [hd (orders db_one_order)]"
     "map order_id (order_items (snd (POST_orders of_int (\<lambda>_. False) db_seed 7 two_lines))) = [1, 1]"
    by code_simp+
  have "\<exists>e. POST_orders2 of_int (\<lambda>_. False) db_seed 7 one_missing = (Inl e, db_seed)"
    using create_order_all_or_nothing[where body = one_missing and d = db_seed and now = 7
        and num = of_int and nan = "\<lambda>_. False"
        and pre = "[\<lparr>ri_id = 1, ri_quantity = 1\<rparr>]" and bad = "\<lparr>ri_id = 999, ri_quantity = 1\<rparr>"
        and rest = "[]"] h
    by blast
  then have "snd (POST_orders2 of_int (\<lambda>_. False) db_seed 7 one_missing) = db_seed" by auto
  with v show ?thesis by blast
qed

text \<open>
  Claim C5 as stated fails on the kind of the error: a line of quantity 0 before the line
  that names the missing item is answered 400, with the store untouched.
\<close>

theorem create_order_error_kind_counterexample:
  "POST_orders of_int (\<lambda>_. False) db_seed 7
     \<lparr>tableId = 1,
      items = [\<lparr>ri_id = 1, ri_quantity = 0\<rparr>, \<lparr>ri_id = 999, ri_quantity = 1\<rparr>],
      staffId = 0\<rparr>
   = (Inl (InvalidInput ''Invalid item data''), db_seed) \<and>
   999 \<notin> set (map m_id (menu_items db_seed))"
  by code_simp

lemma update_table_customer_count:
  "(\<And>t. customer_count (f t) = customer_count t) \<Longrightarrow>
   map customer_count (tables (update_table tid f now d)) = map customer_count (tables d)"
  by (simp add: update_table_def comp_def)

lemma update_order_frame:
  "tables (update_order oid f now d) = tables d"
  "order_items (update_order oid f now d) = order_items d"
  "menu_items (update_order oid f now d) = menu_items d"
  "staff (update_order oid f now d) = staff d"
  "orders (update_order oid f now d) =
     map (\<lambda>r. if o_id r = oid then (f r)\<lparr>o_updated_at := now\<rparr> else r) (orders d)"
  by (simp_all add: update_order_def)

lemma create_order_tx_tables:
  assumes "create_order_tx nan tid tot sid ls now d = Some (oid, d')"
  shows "tables d' = map (\<lambda>t. if t_id t = tid then t\<lparr>t_status := Occupied, t_updated_at := now\<rparr> else t)
                       (tables d) \<and> tid \<in> set (map t_id (tables d))"
  using create_order_tx_Some[OF assms] by blast

lemma occupied_keeps_count:
  "map customer_count
     (map (\<lambda>t. if t_id t = tid then t\<lparr>t_status := Occupied, t_updated_at := now\<rparr> else t) ts)
   = map customer_count ts"
  by (induction ts) auto

lemma POST_orders_customer_count:
  "map customer_count (tables (snd (POST_orders num nan d now body))) = map customer_count (tables d)"
proof (rule disjE[OF POST_orders_cases[of num nan d now body]])
  assume "\<exists>e. POST_orders num nan d now body = (Inl e, d)"
  then show ?thesis by auto
next
  assume "\<exists>oid tot ls d'. POST_orders num nan d now body = (Inr (fetch_order d' oid), d') \<and>
      create_order_tx nan (tableId body) tot (if staffId body = 0 then None else Some (staffId body))
        ls now d = Some (oid, d') \<and> length ls = length (items body)"
  then obtain oid tot ls d' where a: "POST_orders num nan d now body = (Inr (fetch_order d' oid), d')"
    and b: "create_order_tx nan (tableId body) tot (if staffId body = 0 then None else Some (staffId body))
        ls now d = Some (oid, d')"
    by blast
  show ?thesis using create_order_tx_tables[OF b] a by (simp add: occupied_keeps_count)
qed

lemma POST_orders2_customer_count:
  "map customer_count (tables (snd (POST_orders2 num nan d now body))) = map customer_count (tables d)"
proof (rule disjE[OF POST_orders2_cases[of num nan d now body]])
  assume "\<exists>e. POST_orders2 num nan d now body = (Inl e, d)"
  then show ?thesis by auto
next
  assume "\<exists>oid tot ls d'. POST_orders2 num nan d now body = (Inr (oid, tot), d') \<and>
      create_order_tx nan (tableId body) tot None ls now d = Some (oid, d') \<and>
      length ls = length (items body)"
  then obtain oid tot ls d' where a: "POST_orders2 num nan d now body = (Inr (oid, tot), d')"
    and b: "create_order_tx nan (tableId body) tot None ls now d = Some (oid, d')"
    by blast
  show ?thesis using create_order_tx_tables[OF b] a by (simp add: occupied_keeps_count)
qed

lemma POST_orders_Inr_tables:
  assumes "POST_orders num nan d now body = (Inr r, d')"
  shows "tables d' = map (\<lambda>t. if t_id t = tableId body
                              then t\<lparr>t_status := Occupied, t_updated_at := now\<rparr> else t) (tables d)
         \<and> tableId body \<in> set (map t_id (tables d))"
proof (rule disjE[OF POST_orders_cases[of num nan d now body]])
  assume "\<exists>e. POST_orders num nan d now body = (Inl e, d)"
  then show ?thesis using assms by auto
next
  assume "\<exists>oid tot ls d'. POST_orders num nan d now body = (Inr (fetch_order d' oid), d') \<and>
      create_order_tx nan (tableId body) tot (if staffId body = 0 then None else Some (staffId body))
        ls now d = Some (oid, d') \<and> length ls = length (items body)"
  then obtain oid tot ls e where a: "POST_orders num nan d now body = (Inr (fetch_order e oid), e)"
    and b: "create_order_tx nan (tableId body) tot (if staffId body = 0 then None else Some (staffId body))
        ls now d = Some (oid, e)"
    by blast
  from a assms have "e = d'" by simp
  with create_order_tx_tables[OF b] show ?thesis by simp
qed

lemma POST_orders2_Inr_tables:
  assumes "POST_orders2 num nan d now body = (Inr r, d')"
  shows "tables d' = map (\<lambda>t. if t_id t = tableId body
                              then t\<lparr>t_status := Occupied, t_updated_at := now\<rparr> else t) (tables d)
         \<and> tableId body \<in> set (map t_id (tables d))"
proof (rule disjE[OF POST_orders2_cases[of num nan d now body]])
  assume "\<exists>e. POST_orders2 num nan d now body = (Inl e, d)"
  then show ?thesis using assms by auto
next
  assume "\<exists>oid tot ls d'. POST_orders2 num nan d now body = (Inr (oid, tot), d') \<and>
      create_order_tx nan (tableId body) tot None ls now d = Some (oid, d') \<and>
      length ls = length (items body)"
  then obtain oid tot ls e where a: "POST_orders2 num nan d now body = (Inr (oid, tot), e)"
    and b: "create_order_tx nan (tableId body) tot None ls now d = Some (oid, e)"
    by blast
  from a assms have "e = d'" by simp
  with create_order_tx_tables[OF b] show ?thesis by simp
qed

lemma PUT_order_tx_customer_count:
  assumes "PUT_order_tx ord oid st sid now d = Some d'"
  shows "map customer_count (tables d') = map customer_count (tables d)"
proof -
  have u: "map customer_count (tables (update_table tid (\<lambda>t. t\<lparr>t_status := ts\<rparr>) now e))
             = map customer_count (tables e)" for tid ts e
    by (rule update_table_customer_count) simp
  show ?thesis
    using assms
    by (auto simp: PUT_order_tx_def Let_def u update_order_frame
             split: if_splits option.splits order_status.splits)
qed

lemma PUT_order_customer_count:
  "map customer_count (tables (snd (PUT_order d now ident status sid))) = map customer_count (tables d)"
  using PUT_order_tx_customer_count
  by (auto simp: PUT_order_def PUT_order_trace_def Let_def split: option.splits)

text \<open>
  The first statement of the PATCH handler does not prepare against the schema, so the
  handler commits nothing and answers an error, whatever the request.
\<close>

lemma not_prepares_updatedAt: "\<not> prepares [''status'', ''updatedAt'', ''id'']"
  by (simp add: prepares_def orders_columns_def)

lemma PATCH_order_status_trace_error:
  "snd (PATCH_order_status_trace d now ident status) = [] \<and>
   isl (fst (PATCH_order_status_trace d now ident status))"
  by (simp add: PATCH_order_status_trace_def not_prepares_updatedAt split: option.splits)

lemma PATCH_order_status_valid:
  "parse_order_status status = Some s \<Longrightarrow>
   PATCH_order_status_trace d now ident status = (Inl (Internal ''Failed to update order status''), [])"
  by (auto simp: PATCH_order_status_trace_def not_prepares_updatedAt parse_order_status_def
           split: if_splits)

lemma PATCH_order_status_unchanged:
  "snd (PATCH_order_status d now ident status) = d \<and> isl (fst (PATCH_order_status d now ident status))"
  using PATCH_order_status_trace_error[of d now ident status]
  by (simp add: PATCH_order_status_def Let_def)

lemma PATCH_order_status_customer_count:
  "map customer_count (tables (snd (PATCH_order_status d now ident status)))
     = map customer_count (tables d)"
  by (simp add: PATCH_order_status_unchanged)

lemma DELETE_menu_tables: "tables (snd (DELETE_menu d ident)) = tables d"
  by (auto simp: DELETE_menu_def split: option.splits)

lemma POST_tables_Inr:
  assumes "POST_tables d now number status customerCount = (Inr r, d')"
  shows "\<exists>row. tables d' = tables d @ [row] \<and> t_number row = number \<and>
           customer_count row = (if customerCount = 0 then None else Some customerCount)"
  using assms by (auto simp: POST_tables_def Let_def split: if_splits option.splits)

text \<open>
  Claim C9, as amended. A successful order creation, through either create handler, refers
  to an existing table and rewrites the table rows in place: the row of that table gets
  status Occupied, whatever its status was, and the trigger's \<open>updated_at\<close>; its identifier,
  number, customer count and \<open>created_at\<close> stay, and so does every other row. Order creation,
  order update (PUT and PATCH), menu update and menu deletion leave the customer count of
  every table as it is, whatever they answer. Creating a table stores the customer count
  of the request in the new row.
\<close>

theorem create_order_table_effect:
  "(POST_orders num nan d now body = (Inr r, d') \<longrightarrow>
      tableId body \<in> set (map t_id (tables d)) \<and>
      tables d' = map (\<lambda>t. if t_id t = tableId body
                            then t\<lparr>t_status := Occupied, t_updated_at := now\<rparr> else t) (tables d)) \<and>
   (POST_orders2 num nan d now body = (Inr r2, d2) \<longrightarrow>
      tableId body \<in> set (map t_id (tables d)) \<and>
      tables d2 = map (\<lambda>t. if t_id t = tableId body
                            then t\<lparr>t_status := Occupied, t_updated_at := now\<rparr> else t) (tables d)) \<and>
   map customer_count (tables (snd (POST_orders num nan d now body))) = map customer_count (tables d) \<and>
   map customer_count (tables (snd (POST_orders2 num nan d now body))) = map customer_count (tables d) \<and>
   map customer_count (tables (snd (PUT_order d now ident status sid))) = map customer_count (tables d) \<and>
   map customer_count (tables (snd (PATCH_order_status d now ident status)))
     = map customer_count (tables d) \<and>
   tables (snd (PUT_menu d now ident name newPrice avail)) = tables d \<and>
   tables (snd (DELETE_menu d ident)) = tables d \<and>
   (POST_tables d now number tstatus customerCount = (Inr r3, d3) \<longrightarrow>
      (\<exists>row. tables d3 = tables d @ [row] \<and> t_number row = number \<and>
             customer_count row = (if customerCount = 0 then None else Some customerCount)))"
  using POST_orders_Inr_tables[of num nan d now body r d'] POST_orders2_Inr_tables[of num nan d now body r2 d2]
    POST_tables_Inr[of d now number tstatus customerCount r3 d3]
  by (simp add: POST_orders_customer_count POST_orders2_customer_count PUT_order_customer_count
        PATCH_order_status_customer_count PUT_menu_frame DELETE_menu_tables)

text \<open>
  The theorem at the three-table state, whose table 1 is Billing and whose table 3 has a
  customer count of 4: an order for table 1, an order for table 3, a new table 8 for three
  customers.
\<close>

theorem create_order_table_effect_witness:
  "map t_status (tables db_mixed) = [Billing, Free, Occupied] \<and>
   \<not> isl (fst (POST_orders of_int (\<lambda>_. False) db_mixed 9 one_line)) \<and>
   map t_status (tables (snd (POST_orders of_int (\<lambda>_. False) db_mixed 9 one_line))) = [Occupied, Free, Occupied] \<and>
   map customer_count (tables (snd (POST_orders2 of_int (\<lambda>_. False) db_mixed 9 (one_line\<lparr>tableId := 3\<rparr>))))
     = [None, Some 9, Some 4] \<and>
   \<not> isl (fst (POST_tables db_mixed 9 8 None 3)) \<and>
   map customer_count (tables (snd (POST_tables db_mixed 9 8 None 3))) = [None, Some 9, Some 4, Some 3]"
proof -
  have v: "map t_status (tables db_mixed) = [Billing, Free, Occupied]"
    "map customer_count (tables db_mixed) = [None, Some 9, Some 4]"
    "\<not> isl (fst (POST_orders of_int (\<lambda>_. False) db_mixed 9 one_line))"
    "\<not> isl (fst (POST_tables db_mixed 9 8 None 3))"
    "map t_status (map (\<lambda>t. if t_id t = tableId one_line
                              then t\<lparr>t_status := Occupied, t_updated_at := 9\<rparr> else t)
                     (tables db_mixed)) = [Occupied, Free, Occupied]"
    by code_simp+
  obtain r d' where p: "POST_orders of_int (\<lambda>_. False) db_mixed 9 one_line = (Inr r, d')"
    using v(3) by (cases "POST_orders of_int (\<lambda>_. False) db_mixed 9 one_line"; cases "fst (POST_orders of_int (\<lambda>_. False) db_mixed 9 one_line)") auto
  obtain r3 d3 where p3: "POST_tables db_mixed 9 8 None 3 = (Inr r3, d3)"
    using v(4) by (cases "POST_tables db_mixed 9 8 None 3"; cases "fst (POST_tables db_mixed 9 8 None 3)") auto
  note T = create_order_table_effect[where d = db_mixed and now = 9 and body = one_line
      and num = of_int and nan = "\<lambda>_. False" and r = r and d' = d' and number = 8 and tstatus = None and customerCount = 3
      and ?r3.0 = r3 and ?d3.0 = d3]
  have a: "tables d' = map (\<lambda>t. if t_id t = tableId one_line
                              then t\<lparr>t_status := Occupied, t_updated_at := 9\<rparr> else t)
                     (tables db_mixed)"
    using T p by blast
  have "\<exists>row. tables d3 = tables db_mixed @ [row] \<and> t_number row = 8 \<and>
              customer_count row = (if (3::int) = 0 then None else Some 3)"
    using T p3 by blast
  then obtain row where b: "tables d3 = tables db_mixed @ [row]" "customer_count row = Some 3"
    by auto
  have c: "map customer_count (tables (snd (POST_orders2 of_int (\<lambda>_. False) db_mixed 9 (one_line\<lparr>tableId := 3\<rparr>))))
          = map customer_count (tables db_mixed)"
    using create_order_table_effect[where d = db_mixed and now = 9 and num = of_int and nan = "\<lambda>_. False"
        and body = "one_line\<lparr>tableId := 3\<rparr>"] by blast
  show ?thesis
    using v a b c p p3 by simp
qed

text \<open>
  Claim C9 as stated fails on two counts: creating an order changes the \<open>updated_at\<close> of the
  table, and creating a table writes a customer count.
\<close>

theorem create_order_table_effect_counterexample:
  "map t_updated_at (tables db_seed) = [0] \<and>
   map t_updated_at (tables (snd (POST_orders of_int (\<lambda>_. False) db_seed 7 two_lines))) = [7] \<and>
   map customer_count (tables db_seed) = [None] \<and>
   map customer_count (tables (snd (POST_tables db_seed 7 6 None 4))) = [None, Some 4]"
  by code_simp

section \<open>Order status update (C2, C1, C6)\<close>

lemma parse_Paid [simp]: "parse_order_status ''Paid'' = Some Paid"
  by (simp add: parse_order_status_def)

lemma others_after_update:
  assumes "\<And>r. o_id (g r) = o_id r"
  shows "filter (\<lambda>r. P r \<and> o_id r \<noteq> oid) (map (\<lambda>r. if o_id r = oid then g r else r) xs)
         = filter (\<lambda>r. P r \<and> o_id r \<noteq> oid) xs"
  using assms by (induction xs) auto

lemma find_after_update:
  assumes "find (\<lambda>r. o_id r = oid) xs = Some x" and "\<And>r. o_id (g r) = o_id r"
  shows "find (\<lambda>r. o_id r = oid) (map (\<lambda>r. if o_id r = oid then g r else r) xs) = Some (g x)"
  using assms by (induction xs) (auto split: if_splits)

text \<open>
  What the transaction of the PUT handler does with a new status \<open>s\<close> for the order \<open>ord\<close>:
  it throws when the request names a staff member the store does not hold, and otherwise
  returns the state with the order row and the table row both rewritten.
\<close>

lemma PUT_order_tx_status:
  "PUT_order_tx ord oid (Some s) sid now d =
     (if sid \<noteq> 0 \<and> sid \<notin> set (staff d) then None
      else Some (update_table (table_id ord)
                   (\<lambda>t. t\<lparr>t_status :=
                           (case s of Pending \<Rightarrow> Occupied | Preparing \<Rightarrow> Occupied
                            | Ready \<Rightarrow> Serving | Served \<Rightarrow> Serving
                            | Paid \<Rightarrow>
                                if filter (\<lambda>r. table_id r = table_id ord \<and> o_status r \<noteq> Paid
                                                \<and> o_id r \<noteq> oid) (orders d) = []
                                then Billing else Occupied)\<rparr>) now
                   (update_order oid
                      (\<lambda>r. r\<lparr>o_status := s, staff_id := (if sid = 0 then staff_id r else Some sid)\<rparr>)
                      now d)))"
proof -
  let ?g = "\<lambda>r. r\<lparr>o_status := s, staff_id := (if sid = 0 then staff_id r else Some sid),
                    o_updated_at := now\<rparr>"
  let ?d1 = "update_order oid
               (\<lambda>r. r\<lparr>o_status := (case Some s of None \<Rightarrow> o_status r | Some s \<Rightarrow> s),
                      staff_id := (if sid = 0 then staff_id r else Some sid)\<rparr>) now d"
  have o1: "orders ?d1 = map (\<lambda>r. if o_id r = oid then ?g r else r) (orders d)"
    by (simp add: update_order_frame)
  have oth: "filter (\<lambda>r. table_id r = table_id ord \<and> o_status r \<noteq> Paid \<and> o_id r \<noteq> oid) (orders ?d1)
             = filter (\<lambda>r. table_id r = table_id ord \<and> o_status r \<noteq> Paid \<and> o_id r \<noteq> oid) (orders d)"
    unfolding o1
    using others_after_update[of ?g "\<lambda>r. table_id r = table_id ord \<and> o_status r \<noteq> Paid" oid "orders d"]
    by (simp add: conj_assoc)
  show ?thesis
    using oth by (cases s) (auto simp: PUT_order_tx_def Let_def)
qed

lemma PUT_order_trace_status:
  assumes "find (\<lambda>r. o_id r = oid) (orders d) = Some ord" and "parse_order_status status = Some s"
  shows "PUT_order_trace d now (Some oid) status sid =
           (case PUT_order_tx ord oid (Some s) sid now d of
              None \<Rightarrow> (Inl (Internal ''Failed to update order''), [])
            | Some d' \<Rightarrow> (Inr (fetch_order d' oid), [d']))"
  using assms by (simp add: PUT_order_trace_def)

lemma PUT_order_committed:
  assumes "find (\<lambda>r. o_id r = oid) (orders d) = Some ord"
  shows "find (\<lambda>r. o_id r = oid)
           (orders (update_table tid f now
                      (update_order oid (\<lambda>r. r\<lparr>o_status := s, staff_id := x r\<rparr>) now d)))
         = Some (ord\<lparr>o_status := s, staff_id := x ord, o_updated_at := now\<rparr>)"
  using find_after_update[OF assms, of "\<lambda>r. r\<lparr>o_status := s, staff_id := x r, o_updated_at := now\<rparr>"]
  by (simp add: update_table_frame update_order_frame)

lemma PUT_order_status:
  assumes "find (\<lambda>r. o_id r = oid) (orders d) = Some ord" and "parse_order_status status = Some s"
  shows "if sid = 0 \<or> sid \<in> set (staff d)
         then \<exists>d'. PUT_order_trace d now (Some oid) status sid = (Inr (fetch_order d' oid), [d']) \<and>
                find (\<lambda>r. o_id r = oid) (orders d')
                  = Some (ord\<lparr>o_status := s,
                              staff_id := (if sid = 0 then staff_id ord else Some sid),
                              o_updated_at := now\<rparr>) \<and>
                tables d' =
                  map (\<lambda>t. if t_id t = table_id ord
                            then t\<lparr>t_status :=
                                     (case s of Pending \<Rightarrow> Occupied | Preparing \<Rightarrow> Occupied
                                      | Ready \<Rightarrow> Serving | Served \<Rightarrow> Serving
                                      | Paid \<Rightarrow>
                                          if filter (\<lambda>r. table_id r = table_id ord \<and> o_status r \<noteq> Paid
                                                          \<and> o_id r \<noteq> oid) (orders d) = []
                                          then Billing else Occupied),
                                   t_updated_at := now\<rparr>
                            else t) (tables d)
         else PUT_order_trace d now (Some oid) status sid
                = (Inl (Internal ''Failed to update order''), [])"
proof (cases "sid = 0 \<or> sid \<in> set (staff d)")
  case False
  then show ?thesis
    unfolding PUT_order_trace_status[OF assms] PUT_order_tx_status by simp
next
  case True
  let ?D = "update_table (table_id ord)
                   (\<lambda>t. t\<lparr>t_status :=
                           (case s of Pending \<Rightarrow> Occupied | Preparing \<Rightarrow> Occupied
                            | Ready \<Rightarrow> Serving | Served \<Rightarrow> Serving
                            | Paid \<Rightarrow>
                                if filter (\<lambda>r. table_id r = table_id ord \<and> o_status r \<noteq> Paid
                                                \<and> o_id r \<noteq> oid) (orders d) = []
                                then Billing else Occupied)\<rparr>) now
                   (update_order oid
                      (\<lambda>r. r\<lparr>o_status := s, staff_id := (if sid = 0 then staff_id r else Some sid)\<rparr>)
                      now d)"
  have tr: "PUT_order_trace d now (Some oid) status sid = (Inr (fetch_order ?D oid), [?D])"
    unfolding PUT_order_trace_status[OF assms] PUT_order_tx_status using True by auto
  have fo: "find (\<lambda>r. o_id r = oid) (orders ?D)
              = Some (ord\<lparr>o_status := s,
                          staff_id := (if sid = 0 then staff_id ord else Some sid),
                          o_updated_at := now\<rparr>)"
    by (rule PUT_order_committed[OF assms(1)])
  have tb: "tables ?D =
                  map (\<lambda>t. if t_id t = table_id ord
                            then t\<lparr>t_status :=
                                     (case s of Pending \<Rightarrow> Occupied | Preparing \<Rightarrow> Occupied
                                      | Ready \<Rightarrow> Serving | Served \<Rightarrow> Serving
                                      | Paid \<Rightarrow>
                                          if filter (\<lambda>r. table_id r = table_id ord \<and> o_status r \<noteq> Paid
                                                          \<and> o_id r \<noteq> oid) (orders d) = []
                                          then Billing else Occupied),
                                   t_updated_at := now\<rparr>
                            else t) (tables d)"
    by (simp add: update_table_frame update_order_frame)
  have "\<exists>d'. PUT_order_trace d now (Some oid) status sid = (Inr (fetch_order d' oid), [d']) \<and>
                find (\<lambda>r. o_id r = oid) (orders d')
                  = Some (ord\<lparr>o_status := s,
                              staff_id := (if sid = 0 then staff_id ord else Some sid),
                              o_updated_at := now\<rparr>) \<and>
                tables d' =
                  map (\<lambda>t. if t_id t = table_id ord
                            then t\<lparr>t_status :=
                                     (case s of Pending \<Rightarrow> Occupied | Preparing \<Rightarrow> Occupied
                                      | Ready \<Rightarrow> Serving | Served \<Rightarrow> Serving
                                      | Paid \<Rightarrow>
                                          if filter (\<lambda>r. table_id r = table_id ord \<and> o_status r \<noteq> Paid
                                                          \<and> o_id r \<noteq> oid) (orders d) = []
                                          then Billing else Occupied),
                                   t_updated_at := now\<rparr>
                            else t) (tables d)"
    by (rule exI[of _ ?D]) (intro conjI tr fo tb)
  then show ?thesis using True by (simp only: if_True)
qed

text \<open>
  Claim C2. Take an existing order and a request to mark it Paid. Through
  \<open>PUT /api/orders/[id]\<close> the request succeeds when it names no staff member or one the
  store holds: the order row then carries Paid, and the table the order belongs to gets
  the status Billing if it has no other order that is not Paid, Occupied otherwise (every
  other table row stays). When the request names a staff member the store does not hold,
  the transaction rolls back: the answer is the internal error and the store is the one
  before. Through \<open>PATCH /api/orders/[id]/status\<close> no order is ever marked Paid: the answer
  is the internal error and the store is the one before.
\<close>

theorem order_paid_table_status:
  "find (\<lambda>r. o_id r = oid) (orders d) = Some ord \<longrightarrow>
     (if sid = 0 \<or> sid \<in> set (staff d)
      then \<not> isl (fst (PUT_order d now (Some oid) ''Paid'' sid)) \<and>
           find (\<lambda>r. o_id r = oid) (orders (snd (PUT_order d now (Some oid) ''Paid'' sid)))
             = Some (ord\<lparr>o_status := Paid,
                         staff_id := (if sid = 0 then staff_id ord else Some sid),
                         o_updated_at := now\<rparr>) \<and>
           tables (snd (PUT_order d now (Some oid) ''Paid'' sid)) =
             map (\<lambda>t. if t_id t = table_id ord
                       then t\<lparr>t_status :=
                                (if filter (\<lambda>r. table_id r = table_id ord \<and> o_status r \<noteq> Paid
                                                \<and> o_id r \<noteq> oid) (orders d) = []
                                 then Billing else Occupied),
                              t_updated_at := now\<rparr>
                       else t) (tables d)
      else PUT_order d now (Some oid) ''Paid'' sid = (Inl (Internal ''Failed to update order''), d)) \<and>
     PATCH_order_status d now (Some oid) ''Paid''
       = (Inl (Internal ''Failed to update order status''), d)"
proof
  assume a: "find (\<lambda>r. o_id r = oid) (orders d) = Some ord"
  note P = PUT_order_status[OF a parse_Paid, of sid now]
  have patch: "PATCH_order_status d now (Some oid) ''Paid''
                 = (Inl (Internal ''Failed to update order status''), d)"
    using PATCH_order_status_valid[OF parse_Paid, of d now "Some oid"]
    by (simp add: PATCH_order_status_def)
  show "(if sid = 0 \<or> sid \<in> set (staff d)
      then \<not> isl (fst (PUT_order d now (Some oid) ''Paid'' sid)) \<and>
           find (\<lambda>r. o_id r = oid) (orders (snd (PUT_order d now (Some oid) ''Paid'' sid)))
             = Some (ord\<lparr>o_status := Paid,
                         staff_id := (if sid = 0 then staff_id ord else Some sid),
                         o_updated_at := now\<rparr>) \<and>
           tables (snd (PUT_order d now (Some oid) ''Paid'' sid)) =
             map (\<lambda>t. if t_id t = table_id ord
                       then t\<lparr>t_status :=
                                (if filter (\<lambda>r. table_id r = table_id ord \<and> o_status r \<noteq> Paid
                                                \<and> o_id r \<noteq> oid) (orders d) = []
                                 then Billing else Occupied),
                              t_updated_at := now\<rparr>
                       else t) (tables d)
      else PUT_order d now (Some oid) ''Paid'' sid = (Inl (Internal ''Failed to update order''), d)) \<and>
     PATCH_order_status d now (Some oid) ''Paid''
       = (Inl (Internal ''Failed to update order status''), d)"
  proof (cases "sid = 0 \<or> sid \<in> set (staff d)")
    case False
    with P have "PUT_order_trace d now (Some oid) ''Paid'' sid
                   = (Inl (Internal ''Failed to update order''), [])"
      by simp
    then have "PUT_order d now (Some oid) ''Paid'' sid = (Inl (Internal ''Failed to update order''), d)"
      by (simp add: PUT_order_def)
    with False patch show ?thesis by simp
  next
    case True
    with P obtain d' where d':
      "PUT_order_trace d now (Some oid) ''Paid'' sid = (Inr (fetch_order d' oid), [d'])"
      "find (\<lambda>r. o_id r = oid) (orders d')
         = Some (ord\<lparr>o_status := Paid,
                     staff_id := (if sid = 0 then staff_id ord else Some sid),
                     o_updated_at := now\<rparr>)"
      "tables d' =
         map (\<lambda>t. if t_id t = table_id ord
                   then t\<lparr>t_status :=
                            (if filter (\<lambda>r. table_id r = table_id ord \<and> o_status r \<noteq> Paid
                                            \<and> o_id r \<noteq> oid) (orders d) = []
                             then Billing else Occupied),
                          t_updated_at := now\<rparr>
                   else t) (tables d)"
      by auto
    have "PUT_order d now (Some oid) ''Paid'' sid = (Inr (fetch_order d' oid), d')"
      using d'(1) by (simp add: PUT_order_def)
    with True patch d'(2,3) show ?thesis by simp
  qed
qed

text \<open>
  The theorem at a sole order (the table becomes Billing) and at an order beside a Pending
  one (the table becomes Occupied).
\<close>

theorem order_paid_table_status_witness:
  "find (\<lambda>r. o_id r = 1) (orders db_one_order) = Some (hd (orders db_one_order)) \<and>
   map o_status (orders (snd (PUT_order db_one_order 8 (Some 1) ''Paid'' 0))) = [Paid] \<and>
   map t_status (tables (snd (PUT_order db_one_order 8 (Some 1) ''Paid'' 0))) = [Billing] \<and>
   find (\<lambda>r. o_id r = 1) (orders db_mixed) = Some (hd (orders db_mixed)) \<and>
   map t_status (tables (snd (PUT_order db_mixed 8 (Some 1) ''Paid'' 0))) = [Occupied, Free, Occupied] \<and>
   PATCH_order_status db_one_order 8 (Some 1) ''Paid''
     = (Inl (Internal ''Failed to update order status''), db_one_order)"
proof -
  have a: "find (\<lambda>r. o_id r = 1) (orders db_one_order) = Some (hd (orders db_one_order))"
    and b: "find (\<lambda>r. o_id r = 1) (orders db_mixed) = Some (hd (orders db_mixed))"
    by code_simp+
  have v: "map t_status (map (\<lambda>t. if t_id t = table_id (hd (orders db_one_order))
                  then t\<lparr>t_status :=
                           (if filter (\<lambda>r. table_id r = table_id (hd (orders db_one_order)) \<and> o_status r \<noteq> Paid
                                           \<and> o_id r \<noteq> 1) (orders db_one_order) = []
                            then Billing else Occupied),
                         t_updated_at := 8\<rparr>
                  else t) (tables db_one_order)) = [Billing]"
    "map t_status (map (\<lambda>t. if t_id t = table_id (hd (orders db_mixed))
                  then t\<lparr>t_status :=
                           (if filter (\<lambda>r. table_id r = table_id (hd (orders db_mixed)) \<and> o_status r \<noteq> Paid
                                           \<and> o_id r \<noteq> 1) (orders db_mixed) = []
                            then Billing else Occupied),
                         t_updated_at := 8\<rparr>
                  else t) (tables db_mixed)) = [Occupied, Free, Occupied]"
    "map o_status (orders (snd (PUT_order db_one_order 8 (Some 1) ''Paid'' 0))) = [Paid]"
    by code_simp+
  note A = order_paid_table_status[where oid = 1 and d = db_one_order
      and ord = "hd (orders db_one_order)" and sid = 0 and now = 8]
  note B = order_paid_table_status[where oid = 1 and d = db_mixed
      and ord = "hd (orders db_mixed)" and sid = 0 and now = 8]
  have "tables (snd (PUT_order db_one_order 8 (Some 1) ''Paid'' 0)) =
        map (\<lambda>t. if t_id t = table_id (hd (orders db_one_order))
                  then t\<lparr>t_status :=
                           (if filter (\<lambda>r. table_id r = table_id (hd (orders db_one_order)) \<and> o_status r \<noteq> Paid
                                           \<and> o_id r \<noteq> 1) (orders db_one_order) = []
                            then Billing else Occupied),
                         t_updated_at := 8\<rparr>
                  else t) (tables db_one_order)"
    and "PATCH_order_status db_one_order 8 (Some 1) ''Paid''
           = (Inl (Internal ''Failed to update order status''), db_one_order)"
    using A a by simp_all
  moreover have "tables (snd (PUT_order db_mixed 8 (Some 1) ''Paid'' 0)) =
        map (\<lambda>t. if t_id t = table_id (hd (orders db_mixed))
                  then t\<lparr>t_status :=
                           (if filter (\<lambda>r. table_id r = table_id (hd (orders db_mixed)) \<and> o_status r \<noteq> Paid
                                           \<and> o_id r \<noteq> 1) (orders db_mixed) = []
                            then Billing else Occupied),
                         t_updated_at := 8\<rparr>
                  else t) (tables db_mixed)"
    using B b by simp
  ultimately show ?thesis using a b v by simp
qed
lemma derived_status_mset:
  "mset xs = mset ys \<Longrightarrow> derived_status xs = derived_status ys"
proof -
  assume m: "mset xs = mset ys"
  then have "set xs = set ys" by (rule mset_eq_setD)
  moreover have "xs = [] \<longleftrightarrow> ys = []" using m by (metis mset_zero_iff)
  ultimately show ?thesis by (simp add: derived_status_def)
qed

lemma resync_row_derived:
  "t_status (resync_row d now t) = derived_status (map o_status (active_orders d (t_id t)))"
proof (cases "active_orders d (t_id t) = []")
  case True
  then show ?thesis by (simp add: resync_row_status derived_status_def)
next
  case False
  show ?thesis
  proof (cases "Pending \<in> o_status ` set (active_orders d (t_id t))
                \<or> Preparing \<in> o_status ` set (active_orders d (t_id t))")
    case True
    with False show ?thesis by (simp add: resync_row_status derived_status_def)
  next
    case np: False
    obtain r where r: "r \<in> set (active_orders d (t_id t))"
      using False by (cases "active_orders d (t_id t)") auto
    have "o_status r = Ready \<or> o_status r = Served"
      using active_status_cases[OF r] np r by (metis imageI)
    then have "Ready \<in> o_status ` set (active_orders d (t_id t))
               \<or> Served \<in> o_status ` set (active_orders d (t_id t))"
      using r by (metis imageI)
    with False np show ?thesis by (simp add: resync_row_status derived_status_def)
  qed
qed

lemma sync_status_derived:
  assumes "t' \<in> set (tables (snd (POST_sync_status d now)))"
  shows "t_status t' =
           derived_status (map o_status (active_orders (snd (POST_sync_status d now)) (t_id t')))"
proof -
  from assms obtain t where "t' = resync_row d now t"
    by (auto simp: sync_tables_eq)
  moreover have "active_orders (snd (POST_sync_status d now)) tid = active_orders d tid" for tid
    by (rule active_orders_cong) (simp add: sync_tables_eq)
  ultimately show ?thesis by (simp add: resync_row_derived)
qed

lemma created_order_derived:
  assumes "create_order_tx nan tid tot sid ls now d = Some (oid, d')" and "t' \<in> set (tables d')"
    and "t_id t' = tid"
  shows "t_status t' = derived_status (map o_status (active_orders d' tid))"
proof -
  from create_order_tx_Some[OF assms(1)] obtain rows where R:
    "orders d' = orders d @ [\<lparr>o_id = oid, table_id = tid, total_amount = tot, o_status = Pending,
                                   staff_id = sid, o_created_at = now, o_updated_at = now\<rparr>]"
    "tables d' = map (\<lambda>t. if t_id t = tid then t\<lparr>t_status := Occupied, t_updated_at := now\<rparr> else t)
                        (tables d)"
    by blast
  from assms(2) obtain t where t: "t \<in> set (tables d)"
      "t' = (if t_id t = tid then t\<lparr>t_status := Occupied, t_updated_at := now\<rparr> else t)"
    unfolding R(2) by (auto simp: image_iff)
  have "t_status t' = Occupied"
  proof (cases "t_id t = tid")
    case True
    then show ?thesis using t(2) by simp
  next
    case False
    then show ?thesis using t(2) assms(3) by simp
  qed
  moreover have "Pending \<in> set (map o_status (active_orders d' tid))"
    unfolding active_orders_def R(1) by simp
  ultimately show ?thesis by (auto simp: derived_status_def)
qed

text \<open>
  Claim C1, as amended. After a bulk resync the stored status of every table is the one
  derived from the statuses of its orders that are not Paid, so two resynced states in which
  a table has the same multiset of such statuses give it the same stored status. After a
  successful order creation (either create handler) the stored status of the table the order
  is for is the derived one, and so is the stored status of the owning table after a
  cancellation that leaves it without an order that is not Paid.
\<close>

theorem table_status_derived:
  "(\<forall>t' \<in> set (tables (snd (POST_sync_status d now))).
      t_status t' =
        derived_status (map o_status (active_orders (snd (POST_sync_status d now)) (t_id t')))) \<and>
   (t1 \<in> set (tables (snd (POST_sync_status d1 n1))) \<and>
    t2 \<in> set (tables (snd (POST_sync_status d2 n2))) \<and>
    mset (map o_status (active_orders (snd (POST_sync_status d1 n1)) (t_id t1))) =
      mset (map o_status (active_orders (snd (POST_sync_status d2 n2)) (t_id t2)))
      \<longrightarrow> t_status t1 = t_status t2) \<and>
   (POST_orders num nan d now body = (Inr r, d') \<longrightarrow>
      (\<forall>t' \<in> set (tables d'). t_id t' = tableId body \<longrightarrow>
         t_status t' = derived_status (map o_status (active_orders d' (tableId body))))) \<and>
   (POST_orders2 num nan d now body = (Inr r2, e') \<longrightarrow>
      (\<forall>t' \<in> set (tables e'). t_id t' = tableId body \<longrightarrow>
         t_status t' = derived_status (map o_status (active_orders e' (tableId body))))) \<and>
   (find (\<lambda>r. o_id r = oid) (orders d) = Some ord \<and> o_status ord = Pending \<and>
    active_orders (snd (DELETE_order d now (Some oid))) (table_id ord) = [] \<longrightarrow>
      (\<forall>t' \<in> set (tables (snd (DELETE_order d now (Some oid)))). t_id t' = table_id ord \<longrightarrow>
         t_status t' =
           derived_status (map o_status (active_orders (snd (DELETE_order d now (Some oid))) (table_id ord)))))"
proof (intro conjI impI ballI)
  fix t' assume "t' \<in> set (tables (snd (POST_sync_status d now)))"
  then show "t_status t' =
        derived_status (map o_status (active_orders (snd (POST_sync_status d now)) (t_id t')))"
    by (rule sync_status_derived)
next
  assume a: "t1 \<in> set (tables (snd (POST_sync_status d1 n1))) \<and>
    t2 \<in> set (tables (snd (POST_sync_status d2 n2))) \<and>
    mset (map o_status (active_orders (snd (POST_sync_status d1 n1)) (t_id t1))) =
      mset (map o_status (active_orders (snd (POST_sync_status d2 n2)) (t_id t2)))"
  then show "t_status t1 = t_status t2"
    using sync_status_derived[of t1 d1 n1] sync_status_derived[of t2 d2 n2]
      derived_status_mset[of "map o_status (active_orders (snd (POST_sync_status d1 n1)) (t_id t1))"
        "map o_status (active_orders (snd (POST_sync_status d2 n2)) (t_id t2))"]
    by simp
next
  fix t' assume p: "POST_orders num nan d now body = (Inr r, d')" and t: "t' \<in> set (tables d')"
    and i: "t_id t' = tableId body"
  from POST_orders_cases[of num nan d now body] p obtain oid tot ls where
    "create_order_tx nan (tableId body) tot (if staffId body = 0 then None else Some (staffId body))
        ls now d = Some (oid, d')"
    by auto
  from created_order_derived[OF this t i]
  show "t_status t' = derived_status (map o_status (active_orders d' (tableId body)))" .
next
  fix t' assume p: "POST_orders2 num nan d now body = (Inr r2, e')" and t: "t' \<in> set (tables e')"
    and i: "t_id t' = tableId body"
  from POST_orders2_cases[of num nan d now body] p obtain oid tot ls where
    "create_order_tx nan (tableId body) tot None ls now d = Some (oid, e')"
    by auto
  from created_order_derived[OF this t i]
  show "t_status t' = derived_status (map o_status (active_orders e' (tableId body)))" .
next
  fix t'
  assume a: "find (\<lambda>r. o_id r = oid) (orders d) = Some ord \<and> o_status ord = Pending \<and>
    active_orders (snd (DELETE_order d now (Some oid))) (table_id ord) = []"
    and t: "t' \<in> set (tables (snd (DELETE_order d now (Some oid))))" and i: "t_id t' = table_id ord"
  have "tables (snd (DELETE_order d now (Some oid))) =
              map (\<lambda>t. if t_id t = table_id ord
                        then t\<lparr>t_status := Free, customer_count := None, t_updated_at := now\<rparr>
                        else t) (tables d)"
    using DELETE_order_pending_eq[of oid d ord now] a by (simp add: DELETE_order_tx_tables)
  with t i have "t_status t' = Free" by auto
  then show "t_status t' =
           derived_status (map o_status (active_orders (snd (DELETE_order d now (Some oid))) (table_id ord)))"
    using a by (simp add: derived_status_def)
qed

text \<open>
  The theorem at a resync of the three-table state, at the order of two lines for the seed's
  table (the table is Occupied, which is what its one Pending order derives), and at the
  cancellation of that order (the table is Free, which is what no order derives).
\<close>

theorem table_status_derived_witness:
  "list_all (\<lambda>t'. t_status t' =
               derived_status (map o_status (active_orders (snd (POST_sync_status db_mixed 9)) (t_id t'))))
     (tables (snd (POST_sync_status db_mixed 9))) \<and>
   map t_status (tables (snd (POST_sync_status db_mixed 9))) = [Occupied, Serving, Free] \<and>
   \<not> isl (fst (POST_orders of_int (\<lambda>_. False) db_seed 7 two_lines)) \<and>
   map t_id (tables db_one_order) = [tableId two_lines] \<and>
   map o_status (active_orders db_one_order 1) = [Pending] \<and>
   t_status (hd (tables db_one_order)) = derived_status (map o_status (active_orders db_one_order 1)) \<and>
   t_status (hd (tables db_one_order)) = Occupied \<and>
   map_option o_status (find (\<lambda>r. o_id r = 1) (orders db_one_order)) = Some Pending \<and>
   active_orders (snd (DELETE_order db_one_order 9 (Some 1))) 1 = [] \<and>
   t_status (hd (tables (snd (DELETE_order db_one_order 9 (Some 1))))) =
     derived_status (map o_status (active_orders (snd (DELETE_order db_one_order 9 (Some 1))) 1)) \<and>
   t_status (hd (tables (snd (DELETE_order db_one_order 9 (Some 1))))) = Free"
proof -
  have v: "\<not> isl (fst (POST_orders of_int (\<lambda>_. False) db_seed 7 two_lines))"
    "map t_id (tables db_one_order) = [tableId two_lines]"
    "map o_status (active_orders db_one_order 1) = [Pending]"
    "t_status (hd (tables db_one_order)) = Occupied"
    "hd (tables db_one_order) \<in> set (tables db_one_order)"
    "t_id (hd (tables db_one_order)) = tableId two_lines" "tableId two_lines = 1"
    "map t_status (tables (snd (POST_sync_status db_mixed 9))) = [Occupied, Serving, Free]"
    by code_simp+
  have w: "find (\<lambda>r. o_id r = 1) (orders db_one_order) = Some (hd (orders db_one_order))"
    "o_status (hd (orders db_one_order)) = Pending" "table_id (hd (orders db_one_order)) = 1"
    "active_orders (snd (DELETE_order db_one_order 9 (Some 1))) 1 = []"
    "hd (tables (snd (DELETE_order db_one_order 9 (Some 1))))
       \<in> set (tables (snd (DELETE_order db_one_order 9 (Some 1))))"
    "t_id (hd (tables (snd (DELETE_order db_one_order 9 (Some 1))))) = 1"
    "t_status (hd (tables (snd (DELETE_order db_one_order 9 (Some 1))))) = Free"
    by code_simp+
  obtain r d' where p: "POST_orders of_int (\<lambda>_. False) db_seed 7 two_lines = (Inr r, d')"
    using v(1) by (cases "POST_orders of_int (\<lambda>_. False) db_seed 7 two_lines"; cases "fst (POST_orders of_int (\<lambda>_. False) db_seed 7 two_lines)") auto
  then have d': "d' = db_one_order" by (simp add: db_one_order_def)
  have a: "list_all (\<lambda>t'. t_status t' =
               derived_status (map o_status (active_orders (snd (POST_sync_status db_mixed 9)) (t_id t'))))
             (tables (snd (POST_sync_status db_mixed 9)))"
    using table_status_derived[where d = db_mixed and now = 9 and ?d1.0 = db_seed and ?d2.0 = db_seed
        and num = of_int and nan = "\<lambda>_. False"] unfolding list_all_iff by blast
  have "\<forall>t' \<in> set (tables d'). t_id t' = tableId two_lines \<longrightarrow>
         t_status t' = derived_status (map o_status (active_orders d' (tableId two_lines)))"
    using table_status_derived[where d = db_seed and now = 7 and body = two_lines and r = r and d' = d'
        and ?d1.0 = db_seed and ?d2.0 = db_seed and num = of_int and nan = "\<lambda>_. False"] p
    by blast
  then have b: "t_status (hd (tables db_one_order)) =
               derived_status (map o_status (active_orders db_one_order 1))"
    using v(5,6,7) unfolding d' by simp
  have "\<forall>t' \<in> set (tables (snd (DELETE_order db_one_order 9 (Some 1)))).
          t_id t' = table_id (hd (orders db_one_order)) \<longrightarrow>
          t_status t' =
            derived_status (map o_status (active_orders (snd (DELETE_order db_one_order 9 (Some 1)))
                                            (table_id (hd (orders db_one_order)))))"
    using table_status_derived[where d = db_one_order and now = 9 and oid = 1
        and ord = "hd (orders db_one_order)" and ?d1.0 = db_seed and ?d2.0 = db_seed
        and num = of_int and nan = "\<lambda>_. False"] w(1,2,3,4)
    by simp
  then have c: "t_status (hd (tables (snd (DELETE_order db_one_order 9 (Some 1))))) =
     derived_status (map o_status (active_orders (snd (DELETE_order db_one_order 9 (Some 1))) 1))"
    using w(3,5,6) by simp
  show ?thesis
    using a b c v w by simp
qed

text \<open>
  Claim C1 as stated fails after an order status update. With no order that is not Paid, the
  table is Free after a resync and Billing after its last order was marked Paid; and after
  an order is marked Served beside a Pending order of the same table, the table is Serving.
\<close>

theorem table_status_derived_counterexample:
  "map o_status (active_orders db_resynced 1) = [] \<and>
   map t_status (tables db_resynced) = [Free] \<and>
   map o_status (active_orders db_paid 1) = [] \<and>
   map t_status (tables db_paid) = [Billing] \<and>
   map o_status (active_orders db_served 1) = [Served, Pending] \<and>
   map t_status (tables db_served) = [Serving, Free, Occupied]"
  by code_simp

text \<open>
  The PUT handler commits at most once, whatever the request: its order update and its
  table update are in one transaction.
\<close>

lemma PUT_order_trace_atomic:
  "length (snd (PUT_order_trace d now ident status sid)) \<le> 1"
  by (auto simp: PUT_order_trace_def split: option.splits)

text \<open>
  Claim C6. The states a handler commits are its trace. A request to \<open>PUT /api/orders/[id]\<close>
  commits at most one state, and a request to \<open>PATCH /api/orders/[id]/status\<close> commits none
  and leaves the store as it was. For an existing order and a new status \<open>s\<close>, the PUT
  handler either commits nothing, and the store after the call is the store before it, or
  commits exactly one state, which is the store after the call: in it the order row carries
  \<open>s\<close> and the row of the order's table carries the status the handler derives from \<open>s\<close>
  (Occupied for Pending and Preparing, Serving for Ready and Served, and for Paid Billing or
  Occupied as the table has no or some other order that is not Paid). So no committed
  state has the new order status without the table status that goes with it.
\<close>

theorem order_status_update_atomic:
  "length (snd (PUT_order_trace d now ident status sid)) \<le> 1 \<and>
   snd (PATCH_order_status_trace d now ident status) = [] \<and>
   snd (PATCH_order_status d now ident status) = d \<and>
   (ident = Some oid \<and> find (\<lambda>r. o_id r = oid) (orders d) = Some ord \<and>
    parse_order_status status = Some s \<longrightarrow>
      (snd (PUT_order_trace d now ident status sid) = [] \<and>
       snd (PUT_order d now ident status sid) = d) \<or>
      (\<exists>d'. snd (PUT_order_trace d now ident status sid) = [d'] \<and>
            snd (PUT_order d now ident status sid) = d' \<and>
            find (\<lambda>r. o_id r = oid) (orders d')
              = Some (ord\<lparr>o_status := s,
                          staff_id := (if sid = 0 then staff_id ord else Some sid),
                          o_updated_at := now\<rparr>) \<and>
            tables d' =
              map (\<lambda>t. if t_id t = table_id ord
                        then t\<lparr>t_status :=
                                 (case s of Pending \<Rightarrow> Occupied | Preparing \<Rightarrow> Occupied
                                  | Ready \<Rightarrow> Serving | Served \<Rightarrow> Serving
                                  | Paid \<Rightarrow>
                                      if filter (\<lambda>r. table_id r = table_id ord \<and> o_status r \<noteq> Paid
                                                      \<and> o_id r \<noteq> oid) (orders d) = []
                                      then Billing else Occupied),
                               t_updated_at := now\<rparr>
                        else t) (tables d)))"
proof (intro conjI impI)
  show "length (snd (PUT_order_trace d now ident status sid)) \<le> 1"
    by (rule PUT_order_trace_atomic)
  show "snd (PATCH_order_status_trace d now ident status) = []"
    using PATCH_order_status_trace_error[of d now ident status] by simp
  show "snd (PATCH_order_status d now ident status) = d"
    using PATCH_order_status_unchanged[of d now ident status] by simp
next
  assume a: "ident = Some oid \<and> find (\<lambda>r. o_id r = oid) (orders d) = Some ord \<and>
    parse_order_status status = Some s"
  then have i: "ident = Some oid" and f: "find (\<lambda>r. o_id r = oid) (orders d) = Some ord"
    and p: "parse_order_status status = Some s"
    by simp_all
  note P = PUT_order_status[OF f p, of sid now]
  show "(snd (PUT_order_trace d now ident status sid) = [] \<and>
       snd (PUT_order d now ident status sid) = d) \<or>
      (\<exists>d'. snd (PUT_order_trace d now ident status sid) = [d'] \<and>
            snd (PUT_order d now ident status sid) = d' \<and>
            find (\<lambda>r. o_id r = oid) (orders d')
              = Some (ord\<lparr>o_status := s,
                          staff_id := (if sid = 0 then staff_id ord else Some sid),
                          o_updated_at := now\<rparr>) \<and>
            tables d' =
              map (\<lambda>t. if t_id t = table_id ord
                        then t\<lparr>t_status :=
                                 (case s of Pending \<Rightarrow> Occupied | Preparing \<Rightarrow> Occupied
                                  | Ready \<Rightarrow> Serving | Served \<Rightarrow> Serving
                                  | Paid \<Rightarrow>
                                      if filter (\<lambda>r. table_id r = table_id ord \<and> o_status r \<noteq> Paid
                                                      \<and> o_id r \<noteq> oid) (orders d) = []
                                      then Billing else Occupied),
                               t_updated_at := now\<rparr>
                        else t) (tables d))"
  proof (cases "sid = 0 \<or> sid \<in> set (staff d)")
    case False
    with P have "PUT_order_trace d now (Some oid) status sid
                   = (Inl (Internal ''Failed to update order''), [])"
      by simp
    then have "snd (PUT_order_trace d now ident status sid) = [] \<and>
               snd (PUT_order d now ident status sid) = d"
      unfolding i by (simp add: PUT_order_def)
    then show ?thesis by (rule disjI1)
  next
    case True
    with P obtain d' where d':
      "PUT_order_trace d now (Some oid) status sid = (Inr (fetch_order d' oid), [d'])"
      "find (\<lambda>r. o_id r = oid) (orders d')
         = Some (ord\<lparr>o_status := s,
                     staff_id := (if sid = 0 then staff_id ord else Some sid),
                     o_updated_at := now\<rparr>)"
      "tables d' =
              map (\<lambda>t. if t_id t = table_id ord
                        then t\<lparr>t_status :=
                                 (case s of Pending \<Rightarrow> Occupied | Preparing \<Rightarrow> Occupied
                                  | Ready \<Rightarrow> Serving | Served \<Rightarrow> Serving
                                  | Paid \<Rightarrow>
                                      if filter (\<lambda>r. table_id r = table_id ord \<and> o_status r \<noteq> Paid
                                                      \<and> o_id r \<noteq> oid) (orders d) = []
                                      then Billing else Occupied),
                               t_updated_at := now\<rparr>
                        else t) (tables d)"
      by auto
    have t: "snd (PUT_order_trace d now ident status sid) = [d']"
      and u: "snd (PUT_order d now ident status sid) = d'"
      unfolding i using d'(1) by (simp_all add: PUT_order_def)
    show ?thesis
      by (rule disjI2, rule exI[of _ d']) (intro conjI t u d'(2) d'(3))
  qed
qed

text \<open>
  The theorem at the sole Pending order of an Occupied table, marked Paid through PUT: one
  state is committed, with the order Paid and the table Billing. The same request through
  PATCH commits nothing.
\<close>

theorem order_status_update_atomic_witness:
  "find (\<lambda>r. o_id r = 1) (orders db_one_order) = Some (hd (orders db_one_order)) \<and>
   parse_order_status ''Paid'' = Some Paid \<and>
   map o_status (orders db_one_order) = [Pending] \<and>
   map t_status (tables db_one_order) = [Occupied] \<and>
   map (\<lambda>s. (map o_status (orders s), map t_status (tables s)))
     (snd (PUT_order_trace db_one_order 8 (Some 1) ''Paid'' 0)) = [([Paid], [Billing])] \<and>
   snd (PUT_order_trace db_one_order 8 (Some 1) ''Paid'' 0)
     = [snd (PUT_order db_one_order 8 (Some 1) ''Paid'' 0)] \<and>
   snd (PATCH_order_status_trace db_one_order 8 (Some 1) ''Paid'') = [] \<and>
   snd (PATCH_order_status db_one_order 8 (Some 1) ''Paid'') = db_one_order"
proof -
  have h: "find (\<lambda>r. o_id r = 1) (orders db_one_order) = Some (hd (orders db_one_order))"
    "parse_order_status ''Paid'' = Some Paid"
    by code_simp+
  have v: "map o_status (orders db_one_order) = [Pending]"
    "map t_status (tables db_one_order) = [Occupied]"
    "map (\<lambda>s. (map o_status (orders s), map t_status (tables s)))
       (snd (PUT_order_trace db_one_order 8 (Some 1) ''Paid'' 0)) = [([Paid], [Billing])]"
    by code_simp+
  note T = order_status_update_atomic[where d = db_one_order and now = 8 and ident = "Some 1"
      and status = "''Paid''" and sid = 0 and oid = 1 and ord = "hd (orders db_one_order)"
      and s = Paid]
  have p: "snd (PATCH_order_status_trace db_one_order 8 (Some 1) ''Paid'') = []"
    "snd (PATCH_order_status db_one_order 8 (Some 1) ''Paid'') = db_one_order"
    using T by simp_all
  have "(snd (PUT_order_trace db_one_order 8 (Some 1) ''Paid'' 0) = [] \<and>
         snd (PUT_order db_one_order 8 (Some 1) ''Paid'' 0) = db_one_order) \<or>
        (\<exists>d'. snd (PUT_order_trace db_one_order 8 (Some 1) ''Paid'' 0) = [d'] \<and>
              snd (PUT_order db_one_order 8 (Some 1) ''Paid'' 0) = d')"
    using T h by blast
  moreover have "snd (PUT_order_trace db_one_order 8 (Some 1) ''Paid'' 0) \<noteq> []"
    using v(3) by auto
  ultimately have "snd (PUT_order_trace db_one_order 8 (Some 1) ''Paid'' 0)
     = [snd (PUT_order db_one_order 8 (Some 1) ''Paid'' 0)]"
    by auto
  with h v p show ?thesis by simp
qed
section \<open>The schema's constraints are kept by every handler\<close>

lemma update_table_keys:
  assumes "\<And>t. t_id (f t) = t_id t" and "\<And>t. t_number (f t) = t_number t"
  shows "map t_id (tables (update_table tid f now d)) = map t_id (tables d)"
    and "map t_number (tables (update_table tid f now d)) = map t_number (tables d)"
proof -
  have "t_id \<circ> (\<lambda>t. if t_id t = tid then (f t)\<lparr>t_updated_at := now\<rparr> else t) = t_id"
    and "t_number \<circ> (\<lambda>t. if t_id t = tid then (f t)\<lparr>t_updated_at := now\<rparr> else t) = t_number"
    using assms by (auto simp: fun_eq_iff)
  then show "map t_id (tables (update_table tid f now d)) = map t_id (tables d)"
    and "map t_number (tables (update_table tid f now d)) = map t_number (tables d)"
    by (simp_all add: update_table_def)
qed

lemma wf_db_tables_only:
  assumes "wf_db d" and "map t_id (tables d') = map t_id (tables d)"
    and "map t_number (tables d') = map t_number (tables d)"
    and "menu_items d' = menu_items d" and "staff d' = staff d" and "orders d' = orders d"
    and "order_items d' = order_items d"
  shows "wf_db d'"
  using assms unfolding wf_db_def by simp

lemma wf_db_update_table:
  assumes "wf_db d" and "\<And>t. t_id (f t) = t_id t" and "\<And>t. t_number (f t) = t_number t"
  shows "wf_db (update_table tid f now d)"
  by (rule wf_db_tables_only[OF assms(1) update_table_keys(1)[of f, OF assms(2,3)]
             update_table_keys(2)[of f, OF assms(2,3)]])
     (simp_all add: update_table_def)

lemma wf_db_update_order:
  assumes "wf_db d" and "\<And>r. o_id (f r) = o_id r" and "\<And>r. table_id (f r) = table_id r"
    and "\<And>r. staff_id (f r) = staff_id r \<or> (\<exists>s \<in> set (staff d). staff_id (f r) = Some s)"
  shows "wf_db (update_order oid f now d)"
proof -
  have "o_id \<circ> (\<lambda>r. if o_id r = oid then (f r)\<lparr>o_updated_at := now\<rparr> else r) = o_id"
    using assms(2) by (auto simp: fun_eq_iff)
  then have ids: "map o_id (orders (update_order oid f now d)) = map o_id (orders d)"
    by (simp add: update_order_def)
  have fk: "table_id r \<in> set (map t_id (tables d)) \<and> set_option (staff_id r) \<subseteq> set (staff d)"
    if "r \<in> set (orders (update_order oid f now d))" for r
  proof -
    from that obtain r0 where r0: "r0 \<in> set (orders d)"
        "r = (if o_id r0 = oid then (f r0)\<lparr>o_updated_at := now\<rparr> else r0)"
      by (auto simp: update_order_def)
    have old: "table_id r0 \<in> set (map t_id (tables d)) \<and> set_option (staff_id r0) \<subseteq> set (staff d)"
      using assms(1) r0(1) unfolding wf_db_def by blast
    show ?thesis
    proof (cases "o_id r0 = oid")
      case False
      then show ?thesis using r0(2) old by simp
    next
      case True
      then have r: "table_id r = table_id r0" "staff_id r = staff_id (f r0)"
        using r0(2) assms(3) by simp_all
      from assms(4)[of r0] show ?thesis
        using r old by auto
    qed
  qed
  have rest: "tables (update_order oid f now d) = tables d"
      "menu_items (update_order oid f now d) = menu_items d"
      "staff (update_order oid f now d) = staff d"
      "order_items (update_order oid f now d) = order_items d"
    by (simp_all add: update_order_frame)
  show ?thesis
    using assms(1) fk unfolding wf_db_def ids rest
    by blast
qed

lemma wf_db_insert_order:
  assumes "wf_db d" and "insert_order nan tid tot sid now d = Some (oid, d1)"
  shows "wf_db d1"
proof -
  note A = insert_order_Some[OF assms(2)]
  have fresh: "oid \<notin> set (map o_id (orders d))"
    using A next_rowid_fresh[of "seq_orders d" "map o_id (orders d)"] by simp
  show ?thesis
    using assms(1) A fresh unfolding wf_db_def
    by (auto split: option.splits)
qed

lemma wf_db_insert_order_item:
  assumes "wf_db d" and "insert_order_item nan oid l now d = Some d'"
  shows "wf_db d'"
proof -
  from assms(2) have c: "oid \<in> set (map o_id (orders d))"
      "menuItemId l \<in> set (map m_id (menu_items d))"
    by (auto simp: insert_order_item_def split: if_splits)
  from insert_order_item_Some[OF assms(2)] obtain row where row:
    "order_items d' = order_items d @ [row]" "line_row oid now l row"
    "oi_id row = next_rowid (seq_order_items d) (map oi_id (order_items d))"
    "orders d' = orders d" "tables d' = tables d" "menu_items d' = menu_items d" "staff d' = staff d"
    by blast
  have fresh: "oi_id row \<notin> set (map oi_id (order_items d))"
    unfolding row(3) by (rule next_rowid_fresh)
  show ?thesis
    using assms(1) row c fresh unfolding wf_db_def line_row_def
    by auto
qed

lemma wf_db_insert_order_items:
  "wf_db d \<Longrightarrow> insert_order_items nan oid ls now d = Some d' \<Longrightarrow> wf_db d'"
proof (induction ls arbitrary: d)
  case Nil
  then show ?case by simp
next
  case (Cons l ls)
  from Cons.prems(2) obtain d1 where d1: "insert_order_item nan oid l now d = Some d1"
    and rest: "insert_order_items nan oid ls now d1 = Some d'"
    by (cases "insert_order_item nan oid l now d") auto
  from Cons.IH[OF wf_db_insert_order_item[OF Cons.prems(1) d1] rest] show ?case .
qed

lemma wf_db_create_order_tx:
  assumes "wf_db d" and "create_order_tx nan tid tot sid ls now d = Some (oid, d')"
  shows "wf_db d'"
proof -
  from assms(2) obtain d1 d2 where a: "insert_order nan tid tot sid now d = Some (oid, d1)"
    and b: "insert_order_items nan oid ls now d1 = Some d2"
    and c: "d' = update_table tid (\<lambda>t. t\<lparr>t_status := Occupied\<rparr>) now d2"
    by (auto simp: create_order_tx_def split: option.splits)
  have "wf_db d2"
    by (rule wf_db_insert_order_items[OF wf_db_insert_order[OF assms(1) a] b])
  then show ?thesis unfolding c by (rule wf_db_update_table) simp_all
qed

lemma wf_db_PUT_order_tx:
  assumes "wf_db d" and "PUT_order_tx ord oid st sid now d = Some d'"
  shows "wf_db d'"
proof -
  let ?f = "\<lambda>r. r\<lparr>o_status := (case st of None \<Rightarrow> o_status r | Some s \<Rightarrow> s),
                    staff_id := (if sid = 0 then staff_id r else Some sid)\<rparr>"
  from assms(2) have s: "sid = 0 \<or> sid \<in> set (staff d)"
    by (auto simp: PUT_order_tx_def split: if_splits)
  have w1: "wf_db (update_order oid ?f now d)"
    by (rule wf_db_update_order[OF assms(1)]) (use s in auto)
  have w2: "wf_db (update_table tid (\<lambda>t. t\<lparr>t_status := ts\<rparr>) now (update_order oid ?f now d))"
    for tid ts
    by (rule wf_db_update_table[OF w1]) simp_all
  show ?thesis
    using assms(2) s w1 w2
    by (auto simp: PUT_order_tx_def Let_def split: if_splits option.splits order_status.splits)
qed

lemma wf_db_DELETE_order_tx:
  assumes "wf_db d"
  shows "wf_db (DELETE_order_tx ord oid now d)"
proof -
  let ?d1 = "d\<lparr>orders := filter (\<lambda>r. o_id r \<noteq> oid) (orders d),
               order_items := filter (\<lambda>i. order_id i \<noteq> oid) (order_items d)\<rparr>"
  have w1: "wf_db ?d1"
    using assms unfolding wf_db_def
    by (auto simp: distinct_map_filter)
  have "wf_db (update_table tid (\<lambda>t. t\<lparr>t_status := Free, customer_count := None\<rparr>) now ?d1)" for tid
    by (rule wf_db_update_table[OF w1]) simp_all
  with w1 show ?thesis by (simp add: DELETE_order_tx_def Let_def)
qed

lemma wf_db_sync_table: "wf_db d \<Longrightarrow> wf_db (sync_table now d tid)"
  unfolding sync_table_def Let_def by (rule wf_db_update_table) simp_all

lemma wf_db_foldl_sync: "wf_db d \<Longrightarrow> wf_db (foldl (sync_table now) d ids)"
  by (induction ids arbitrary: d) (simp_all add: wf_db_sync_table)

text \<open>
  A store that satisfies the constraints of the schema still does after any of the modelled
  requests, whatever the answer; the seed satisfies them.
\<close>

lemma wf_db_invariant:
  assumes "wf_db d"
  shows "wf_db (snd (POST_orders num nan d now body))"
    and "wf_db (snd (POST_orders2 num nan d now body))"
    and "wf_db (snd (PUT_order d now ident status sid))"
    and "wf_db (snd (PATCH_order_status d now ident status))"
    and "wf_db (snd (DELETE_order d now ident))"
    and "wf_db (snd (POST_sync_status d now))"
    and "wf_db (snd (PUT_menu d now ident name newPrice avail))"
    and "wf_db (snd (DELETE_menu d ident))"
    and "wf_db (snd (PUT_table d now ident tstatus customerCount))"
    and "wf_db (snd (POST_tables d now number nstatus customerCount))"
proof -
  show "wf_db (snd (POST_orders num nan d now body))"
    using POST_orders_cases[of num nan d now body] wf_db_create_order_tx[OF assms] assms by auto
  show "wf_db (snd (POST_orders2 num nan d now body))"
    using POST_orders2_cases[of num nan d now body] wf_db_create_order_tx[OF assms] assms by auto
  show "wf_db (snd (PUT_order d now ident status sid))"
    using wf_db_PUT_order_tx[OF assms] assms
    by (auto simp: PUT_order_def PUT_order_trace_def split: option.splits)
  show "wf_db (snd (PATCH_order_status d now ident status))"
    using assms by (simp add: PATCH_order_status_unchanged)
  show "wf_db (snd (DELETE_order d now ident))"
    using wf_db_DELETE_order_tx[OF assms] assms
    by (auto simp: DELETE_order_def split: option.splits)
  show "wf_db (snd (POST_sync_status d now))"
    using wf_db_foldl_sync[OF assms] by (simp add: POST_sync_status_def)
  show "wf_db (snd (PUT_menu d now ident name newPrice avail))"
    using assms unfolding wf_db_def by (simp add: PUT_menu_frame)
  show "wf_db (snd (DELETE_menu d ident))"
    using assms unfolding wf_db_def
    by (auto simp: DELETE_menu_def distinct_map_filter split: option.splits)
  show "wf_db (snd (PUT_table d now ident tstatus customerCount))"
  proof -
    have "wf_db (update_table tid
             (\<lambda>t. t\<lparr>t_status := (case parse_table_status tstatus of
                                    None \<Rightarrow> t_status t | Some s \<Rightarrow> s),
                    customer_count := (if customerCount = 0 then customer_count t
                                       else Some customerCount)\<rparr>) now d)" for tid
      by (rule wf_db_update_table[OF assms]) simp_all
    then show ?thesis
      using assms by (auto simp: PUT_table_def Let_def split: option.splits)
  qed
  show "wf_db (snd (POST_tables d now number nstatus customerCount))"
  proof -
    have fresh: "next_rowid (seq_tables d) (map t_id (tables d)) \<notin> set (map t_id (tables d))"
      by (rule next_rowid_fresh)
    have pos: "next_rowid (seq_tables d) (map t_id (tables d)) \<noteq> 0"
      by (simp add: next_rowid_def)
    show ?thesis
      using assms fresh pos unfolding wf_db_def
      by (auto simp: POST_tables_def Let_def split: option.splits)
  qed
qed

lemma wf_db_seed: "wf_db db_seed"
  by code_simp

end
